theory Spec2Isabelle
  imports Main "HOL-Library.Word"
begin

section \<open>JavaScript values\<close>

text \<open>
  The component \<^verbatim>\<open>EmptyProjectState\<close> of \<^verbatim>\<open>src/components/empty-project-state.tsx\<close>
  is embedded as pure functions on an explicit record of its React state.  A JavaScript
  string is a sequence of UTF-16 code units, so that \<^verbatim>\<open>String.prototype.trim\<close>, truthiness
  and \<^verbatim>\<open>===\<close> on strings are exactly those of the language.
\<close>

type_synonym jstring = "16 word list"

definition ascii :: "string \<Rightarrow> jstring" where
  "ascii cs = map (\<lambda>c. of_nat (of_char c)) cs"

text \<open>
  What \<^verbatim>\<open>response.json()\<close> can resolve to.  A JSON number is kept as an integer: the
  component only ever tests a number for truthiness.  An object is the list of its members
  in the order of the text.
\<close>

datatype json =
    JNull
  | JBool bool
  | JNum int
  | JStr jstring
  | JArr "json list"
  | JObj "(jstring \<times> json) list"

text \<open>A JavaScript value read by the component: \<open>None\<close> is \<^verbatim>\<open>undefined\<close>.\<close>

type_synonym jsval = "json option"

text \<open>
  The exceptions that reach the \<^verbatim>\<open>catch\<close> blocks: the \<^verbatim>\<open>Error\<close> the component throws
  itself, the \<^verbatim>\<open>TypeError\<close> of a property read on \<^verbatim>\<open>null\<close> or \<^verbatim>\<open>undefined\<close>, a
  rejected \<^verbatim>\<open>fetch\<close>, and a rejected \<^verbatim>\<open>response.json()\<close>.
\<close>

datatype exn = Error jstring | TypeError | FetchRejected | BodyNotJson

text \<open>
  The own property of a parsed value.  \<^verbatim>\<open>JSON.parse\<close> keeps the last of several members
  with one key.  The component reads the names \<^verbatim>\<open>success\<close>, \<^verbatim>\<open>data\<close>, \<^verbatim>\<open>files\<close>,
  \<^verbatim>\<open>message\<close> and \<^verbatim>\<open>id\<close> only, which no array, string, number or boolean has.
\<close>

fun own :: "json \<Rightarrow> jstring \<Rightarrow> jsval" where
  "own (JObj members) k = map_of (rev members) k"
| "own _ k = None"

text \<open>\<^verbatim>\<open>v.k\<close>: a \<^verbatim>\<open>TypeError\<close> on \<^verbatim>\<open>null\<close> and \<^verbatim>\<open>undefined\<close>.\<close>

definition get_prop :: "jsval \<Rightarrow> jstring \<Rightarrow> exn + jsval" where
  "get_prop v k = (case v of None \<Rightarrow> Inl TypeError
                       | Some JNull \<Rightarrow> Inl TypeError
                       | Some j \<Rightarrow> Inr (own j k))"

text \<open>\<^verbatim>\<open>v?.k\<close>: \<^verbatim>\<open>undefined\<close> on \<^verbatim>\<open>null\<close> and \<^verbatim>\<open>undefined\<close>.\<close>

definition opt_prop :: "jsval \<Rightarrow> jstring \<Rightarrow> jsval" where
  "opt_prop v k = (case v of None \<Rightarrow> None
                           | Some JNull \<Rightarrow> None
                           | Some j \<Rightarrow> own j k)"

fun truthy :: "jsval \<Rightarrow> bool" where
  "truthy None = False"
| "truthy (Some JNull) = False"
| "truthy (Some (JBool b)) = b"
| "truthy (Some (JNum n)) = (n \<noteq> 0)"
| "truthy (Some (JStr s)) = (s \<noteq> [])"
| "truthy (Some (JArr xs)) = True"
| "truthy (Some (JObj members)) = True"

text \<open>\<^verbatim>\<open>a || b\<close> with any right operand, and with a right operand that is defined.\<close>

definition or_js :: "jsval \<Rightarrow> jsval \<Rightarrow> jsval" where
  "or_js a b = (if truthy a then a else b)"

definition or_else :: "jsval \<Rightarrow> json \<Rightarrow> json" where
  "or_else a b = (case a of None \<Rightarrow> b | Some j \<Rightarrow> if truthy a then j else b)"

text \<open>
  \<^verbatim>\<open>localStorage.getItem("token")\<close> and \<^verbatim>\<open>params.projectId\<close> are a string or absent;
  \<^verbatim>\<open>!token\<close> and \<^verbatim>\<open>!projectId\<close> hold for the absent and for the empty string.
\<close>

definition present :: "jstring option \<Rightarrow> bool" where
  "present t = (case t of None \<Rightarrow> False | Some s \<Rightarrow> s \<noteq> [])"

definition str_of :: "jstring option \<Rightarrow> jstring" where
  "str_of t = (case t of None \<Rightarrow> [] | Some s \<Rightarrow> s)"

text \<open>
  \<^verbatim>\<open>String.prototype.trim\<close> strips the code units of WhiteSpace and LineTerminator from
  both ends.
\<close>

definition is_space :: "16 word \<Rightarrow> bool" where
  "is_space c = (c \<in> set [0x0009, 0x000A, 0x000B, 0x000C, 0x000D, 0x0020, 0x00A0, 0x1680,
      0x2000, 0x2001, 0x2002, 0x2003, 0x2004, 0x2005, 0x2006, 0x2007, 0x2008, 0x2009, 0x200A,
      0x2028, 0x2029, 0x202F, 0x205F, 0x3000, 0xFEFF])"

definition trim :: "jstring \<Rightarrow> jstring" where
  "trim s = rev (dropWhile is_space (rev (dropWhile is_space s)))"

text \<open>The decimal digits of \<^verbatim>\<open>fileList.length\<close> inside the template literal of line 162.\<close>

function decimal :: "nat \<Rightarrow> jstring" where
  "decimal n = (if n < 10 then [of_nat (48 + n)]
                else decimal (n div 10) @ [of_nat (48 + n mod 10)])"
  by pat_completeness auto
termination
  by (relation "measure (\<lambda>n. n)") auto

declare decimal.simps [simp del]

subsection \<open>The string literals of the source\<close>

text \<open>Each literal is written as its UTF-16 code units.\<close>

definition txt_unauthorized :: jstring where \<comment> \<open>message of the Error thrown when no token is stored (lines 67, 140, 206)\<close>
  "txt_unauthorized = [0x672A, 0x6388, 0x6743, 0xFF0C, 0x8BF7, 0x91CD, 0x65B0, 0x767B, 0x5F55]"

definition txt_list_failed :: jstring where \<comment> \<open>toast title of fetchFiles (lines 91, 99, 107)\<close>
  "txt_list_failed = [0x83B7, 0x53D6, 0x6587, 0x4EF6, 0x5217, 0x8868, 0x5931, 0x8D25]"

definition txt_bad_format :: jstring where \<comment> \<open>toast description, line 92\<close>
  "txt_bad_format = [0x8FD4, 0x56DE, 0x7684, 0x6587, 0x4EF6, 0x6570, 0x636E, 0x683C, 0x5F0F, 0x4E0D, 0x6B63, 0x786E]"

definition txt_unknown_error :: jstring where \<comment> \<open>fallback of result.message (lines 97, 100, 173, 176, 227, 230)\<close>
  "txt_unknown_error = [0x672A, 0x77E5, 0x9519, 0x8BEF]"

definition txt_check_network :: jstring where \<comment> \<open>toast description of every catch block (lines 108, 184, 238)\<close>
  "txt_check_network = [0x8BF7, 0x68C0, 0x67E5, 0x7F51, 0x7EDC, 0x8FDE, 0x63A5]"

definition txt_upload_failed :: jstring where \<comment> \<open>toast title (lines 129, 175, 183)\<close>
  "txt_upload_failed = [0x4E0A, 0x4F20, 0x5931, 0x8D25]"

definition txt_no_project :: jstring where \<comment> \<open>toast description, line 130\<close>
  "txt_no_project = [0x672A, 0x627E, 0x5230, 0x9879, 0x76EE, 0x0049, 0x0044]"

definition txt_upload_ok :: jstring where \<comment> \<open>toast title, line 164\<close>
  "txt_upload_ok = [0x4E0A, 0x4F20, 0x6210, 0x529F]"

definition txt_uploaded_prefix :: jstring where \<comment> \<open>template literal of line 162, before the count\<close>
  "txt_uploaded_prefix = [0x6210, 0x529F, 0x4E0A, 0x4F20, 0x0020]"

definition txt_uploaded_suffix :: jstring where \<comment> \<open>template literal of line 162, after the count\<close>
  "txt_uploaded_suffix = [0x0020, 0x4E2A, 0x6587, 0x4EF6]"

definition txt_delete_ok :: jstring where \<comment> \<open>toast title, line 221\<close>
  "txt_delete_ok = [0x5220, 0x9664, 0x6210, 0x529F]"

definition txt_file_deleted :: jstring where \<comment> \<open>last fallback of the success message, line 219\<close>
  "txt_file_deleted = [0x6587, 0x4EF6, 0x5DF2, 0x5220, 0x9664]"

definition txt_delete_failed :: jstring where \<comment> \<open>toast title (lines 229, 237)\<close>
  "txt_delete_failed = [0x5220, 0x9664, 0x5931, 0x8D25]"

definition log_list_failed :: jstring where \<comment> \<open>console.error label, line 97\<close>
  "log_list_failed = [0x83B7, 0x53D6, 0x6587, 0x4EF6, 0x5217, 0x8868, 0x5931, 0x8D25, 0x003A]"

definition log_list_error :: jstring where \<comment> \<open>console.error label, line 105\<close>
  "log_list_error = [0x83B7, 0x53D6, 0x6587, 0x4EF6, 0x5217, 0x8868, 0x65F6, 0x51FA, 0x9519, 0x003A]"

definition log_upload_failed :: jstring where \<comment> \<open>console.error label, line 173\<close>
  "log_upload_failed = [0x4E0A, 0x4F20, 0x6587, 0x4EF6, 0x5931, 0x8D25, 0x003A]"

definition log_upload_error :: jstring where \<comment> \<open>console.error label, line 181\<close>
  "log_upload_error = [0x4E0A, 0x4F20, 0x6587, 0x4EF6, 0x65F6, 0x51FA, 0x9519, 0x003A]"

definition log_delete_failed :: jstring where \<comment> \<open>console.error label, line 227\<close>
  "log_delete_failed = [0x5220, 0x9664, 0x6587, 0x4EF6, 0x5931, 0x8D25, 0x003A]"

definition log_delete_error :: jstring where \<comment> \<open>console.error label, line 235\<close>
  "log_delete_error = [0x5220, 0x9664, 0x6587, 0x4EF6, 0x65F6, 0x51FA, 0x9519, 0x003A]"

definition uploaded_message :: "nat \<Rightarrow> jstring" where
  "uploaded_message n = txt_uploaded_prefix @ decimal n @ txt_uploaded_suffix"

definition k_success :: jstring where "k_success = ascii ''success''"
definition k_data :: jstring where "k_data = ascii ''data''"
definition k_files :: jstring where "k_files = ascii ''files''"
definition k_message :: jstring where "k_message = ascii ''message''"
definition k_id :: jstring where "k_id = ascii ''id''"

section \<open>The component's state and its effects\<close>

text \<open>\<^verbatim>\<open>step\<close> is \<^verbatim>\<open>"initial" | "document"\<close> (line 40).\<close>

datatype view = Initial | Document

datatype variant = Default | Destructive

datatype level = Log | Err

text \<open>A \<^verbatim>\<open>File\<close> of a \<^verbatim>\<open>FileList\<close>: its name and its size.\<close>

datatype blob = Blob jstring nat

text \<open>
  The three requests the component issues with \<^verbatim>\<open>fetch\<close>: the list request carries the
  token and the project id, the upload request the token, the project id and the files,
  the delete request the token and the file id.
\<close>

datatype request =
    ListFiles jstring jstring
  | Upload jstring jstring "blob list"
  | Delete jstring jstring

text \<open>
  How a request ends: \<^verbatim>\<open>fetch\<close> rejects, or it resolves to a response with its
  \<^verbatim>\<open>ok\<close> flag and what \<^verbatim>\<open>response.json()\<close> gives (\<open>None\<close> when that rejects).
\<close>

datatype reply = Rejected | Response bool "json option"

datatype logged = Val jsval | Exn exn

text \<open>
  Everything the component does to its collaborators, in the order it does it: a toast, a
  request, a console line, \<^verbatim>\<open>onStartCreatingDocument(text)\<close>, \<^verbatim>\<open>onFilesUploaded()\<close>.
\<close>

datatype effect =
    Toast jstring json variant
  | Fetch request
  | Console level jstring logged
  | StartCreatingDocument jstring
  | FilesUploaded

record state =
  description :: jstring
  step :: view
  isUploading :: bool
  files :: "json list"
  isLoading :: bool
  isDeleting :: "jstring option"
  effects :: "effect list"

text \<open>The \<^verbatim>\<open>useState\<close> initial values of lines 39 to 44.\<close>

definition init :: state where
  "init = \<lparr>description = [], step = Initial, isUploading = False, files = [],
           isLoading = True, isDeleting = None, effects = []\<rparr>"

record env =
  projectId :: "jstring option"
  token :: "jstring option"

definition emit :: "effect \<Rightarrow> state \<Rightarrow> state" where
  "emit e s = s\<lparr>effects := effects s @ [e]\<rparr>"

section \<open>fetchFiles\<close>

text \<open>
  An \<^verbatim>\<open>async\<close> function runs in two parts: what it does until it awaits \<^verbatim>\<open>fetch\<close>, and
  what it does once the reply is there.  The first part returns whether a request is now
  in flight.
\<close>

text \<open>The \<^verbatim>\<open>catch\<close> block of lines 104 to 110.\<close>

definition fetchFiles_catch :: "exn \<Rightarrow> state \<Rightarrow> state" where
  "fetchFiles_catch err s =
     emit (Toast txt_list_failed (JStr txt_check_network) Destructive)
       (emit (Console Err log_list_error (Exn err)) s)"

definition fetchFiles_start :: "env \<Rightarrow> state \<Rightarrow> bool \<times> state" where
  "fetchFiles_start e s =
     (if \<not> present (projectId e) then (False, s)
      else let s1 = s\<lparr>isLoading := True\<rparr> in
        if \<not> present (token e)
        then (False, (fetchFiles_catch (Error txt_unauthorized) s1)\<lparr>isLoading := False\<rparr>)
        else (True, emit (Fetch (ListFiles (str_of (token e)) (str_of (projectId e)))) s1))"

text \<open>
  Line 83:
  \<^verbatim>\<open>result.success ? result.data.files : result.data ? result.data.files : result.files\<close>.
\<close>

definition select_files :: "json \<Rightarrow> exn + jsval" where
  "select_files result =
     (case get_prop (Some result) k_success of
        Inl err \<Rightarrow> Inl err
      | Inr success \<Rightarrow>
          if truthy success
          then (case get_prop (Some result) k_data of
                  Inl err \<Rightarrow> Inl err
                | Inr d \<Rightarrow> get_prop d k_files)
          else (case get_prop (Some result) k_data of
                  Inl err \<Rightarrow> Inl err
                | Inr d \<Rightarrow>
                    if truthy d
                    then (case get_prop (Some result) k_data of
                            Inl err \<Rightarrow> Inl err
                          | Inr d' \<Rightarrow> get_prop d' k_files)
                    else get_prop (Some result) k_files))"

text \<open>The \<^verbatim>\<open>try\<close> block from line 79 on.\<close>

definition fetchFiles_body :: "reply \<Rightarrow> state \<Rightarrow> exn + state" where
  "fetchFiles_body r s =
     (case r of
        Rejected \<Rightarrow> Inl FetchRejected
      | Response ok None \<Rightarrow> Inl BodyNotJson
      | Response ok (Some result) \<Rightarrow>
          if ok then
            (case select_files result of
               Inl err \<Rightarrow> Inl err
             | Inr fileData \<Rightarrow>
                 (case fileData of
                    Some (JArr xs) \<Rightarrow>
                      Inr ((emit (Console Log (ascii ''Files fetched successfully:'') (Val fileData)) s)
                             \<lparr>files := xs\<rparr>)
                  | _ \<Rightarrow>
                      Inr (emit (Toast txt_list_failed (JStr txt_bad_format) Destructive)
                            (emit (Console Err (ascii ''Invalid file data format:'') (Val fileData)) s))))
          else
            (case get_prop (Some result) k_message of
               Inl err \<Rightarrow> Inl err
             | Inr m \<Rightarrow>
                 Inr (emit (Toast txt_list_failed (or_else m (JStr txt_unknown_error)) Destructive)
                       (emit (Console Err log_list_failed
                                (Val (Some (or_else m (JStr txt_unknown_error))))) s))))"

definition fetchFiles_resume :: "reply \<Rightarrow> state \<Rightarrow> state" where
  "fetchFiles_resume r s =
     (case fetchFiles_body r s of
        Inl err \<Rightarrow> fetchFiles_catch err s
      | Inr s' \<Rightarrow> s')\<lparr>isLoading := False\<rparr>"

text \<open>The \<^verbatim>\<open>useEffect\<close> of lines 51 to 57.\<close>

definition mount :: "env \<Rightarrow> state \<Rightarrow> bool \<times> state" where
  "mount e s =
     (if present (projectId e) then fetchFiles_start e s
      else (False, s\<lparr>isLoading := False\<rparr>))"

section \<open>processFiles\<close>

definition processFiles_catch :: "exn \<Rightarrow> state \<Rightarrow> state" where
  "processFiles_catch err s =
     emit (Toast txt_upload_failed (JStr txt_check_network) Destructive)
       (emit (Console Err log_upload_error (Exn err)) s)"

definition processFiles_start :: "env \<Rightarrow> blob list \<Rightarrow> state \<Rightarrow> bool \<times> state" where
  "processFiles_start e fileList s =
     (if \<not> present (projectId e)
      then (False, emit (Toast txt_upload_failed (JStr txt_no_project) Destructive) s)
      else let s1 = s\<lparr>isUploading := True\<rparr> in
        if \<not> present (token e)
        then (False, (processFiles_catch (Error txt_unauthorized) s1)\<lparr>isUploading := False\<rparr>)
        else (True, emit (Fetch (Upload (str_of (token e)) (str_of (projectId e)) fileList)) s1))"

text \<open>
  The \<^verbatim>\<open>try\<close> block from line 158 on.  \<^verbatim>\<open>fetchFiles()\<close> is called and not awaited: its
  first part runs here, with the project id of the same closure and the token that is
  stored at that moment, and the result says whether a list request is now in flight.
\<close>

definition processFiles_body :: "env \<Rightarrow> blob list \<Rightarrow> reply \<Rightarrow> state \<Rightarrow> exn + bool \<times> state" where
  "processFiles_body e fileList r s =
     (case r of
        Rejected \<Rightarrow> Inl FetchRejected
      | Response ok None \<Rightarrow> Inl BodyNotJson
      | Response ok (Some result) \<Rightarrow>
          if ok then
            (case get_prop (Some result) k_message of
               Inl err \<Rightarrow> Inl err
             | Inr m \<Rightarrow>
                 let message = or_else m (JStr (uploaded_message (length fileList)));
                     s1 = emit (Toast txt_upload_ok message Default) s;
                     (pending, s2) = fetchFiles_start e s1
                 in Inr (pending, emit FilesUploaded s2))
          else
            (case get_prop (Some result) k_message of
               Inl err \<Rightarrow> Inl err
             | Inr m \<Rightarrow>
                 Inr (False,
                      emit (Toast txt_upload_failed (or_else m (JStr txt_unknown_error)) Destructive)
                        (emit (Console Err log_upload_failed
                                 (Val (Some (or_else m (JStr txt_unknown_error))))) s))))"

definition processFiles_resume :: "env \<Rightarrow> blob list \<Rightarrow> reply \<Rightarrow> state \<Rightarrow> bool \<times> state" where
  "processFiles_resume e fileList r s =
     (case processFiles_body e fileList r s of
        Inl err \<Rightarrow> (False, (processFiles_catch err s)\<lparr>isUploading := False\<rparr>)
      | Inr (pending, s') \<Rightarrow> (pending, s'\<lparr>isUploading := False\<rparr>))"

text \<open>Lines 192 to 198; resetting the input's value does not touch the component's state.\<close>

definition handleFileUpload :: "env \<Rightarrow> blob list option \<Rightarrow> state \<Rightarrow> bool \<times> state" where
  "handleFileUpload e picked s =
     (case picked of
        None \<Rightarrow> (False, s)
      | Some fileList \<Rightarrow> if length fileList > 0 then processFiles_start e fileList s else (False, s))"

section \<open>deleteFile\<close>

definition deleteFile_catch :: "exn \<Rightarrow> state \<Rightarrow> state" where
  "deleteFile_catch err s =
     emit (Toast txt_delete_failed (JStr txt_check_network) Destructive)
       (emit (Console Err log_delete_error (Exn err)) s)"

definition deleteFile_start :: "jstring option \<Rightarrow> jstring \<Rightarrow> state \<Rightarrow> bool \<times> state" where
  "deleteFile_start tok fileId s =
     (let s1 = s\<lparr>isDeleting := Some fileId\<rparr> in
        if \<not> present tok
        then (False, (deleteFile_catch (Error txt_unauthorized) s1)\<lparr>isDeleting := None\<rparr>)
        else (True, emit (Fetch (Delete (str_of tok) fileId)) s1))"

text \<open>
  The updater of line 225, \<^verbatim>\<open>prevFiles.filter((file) => file.id !== fileId)\<close>.  Reading
  \<^verbatim>\<open>file.id\<close> of a \<^verbatim>\<open>null\<close> element throws.
\<close>

definition file_id :: "json \<Rightarrow> exn + jsval" where
  "file_id file = get_prop (Some file) k_id"

fun remove_file :: "jstring \<Rightarrow> json list \<Rightarrow> exn + json list" where
  "remove_file fileId [] = Inr []"
| "remove_file fileId (file # rest) =
     (case file_id file of
        Inl err \<Rightarrow> Inl err
      | Inr i \<Rightarrow>
          (case remove_file fileId rest of
             Inl err \<Rightarrow> Inl err
           | Inr rest' \<Rightarrow> Inr (if i \<noteq> Some (JStr fileId) then file # rest' else rest')))"

text \<open>
  The \<^verbatim>\<open>try\<close> block from line 216 on.  The result says whether \<^verbatim>\<open>setFiles\<close> was called
  with the updater.
\<close>

definition deleteFile_body :: "reply \<Rightarrow> state \<Rightarrow> exn + bool \<times> state" where
  "deleteFile_body r s =
     (case r of
        Rejected \<Rightarrow> Inl FetchRejected
      | Response ok None \<Rightarrow> Inl BodyNotJson
      | Response ok (Some result) \<Rightarrow>
          if ok then
            (case get_prop (Some result) k_message of
               Inl err \<Rightarrow> Inl err
             | Inr m \<Rightarrow>
                 let message = or_else (or_js m (opt_prop (own result k_data) k_message))
                                 (JStr txt_file_deleted)
                 in Inr (True, emit (Toast txt_delete_ok message Default) s))
          else
            (case get_prop (Some result) k_message of
               Inl err \<Rightarrow> Inl err
             | Inr m \<Rightarrow>
                 Inr (False,
                      emit (Toast txt_delete_failed (or_else m (JStr txt_unknown_error)) Destructive)
                        (emit (Console Err log_delete_failed
                                 (Val (Some (or_else m (JStr txt_unknown_error))))) s))))"

text \<open>
  The \<^verbatim>\<open>catch\<close> and \<^verbatim>\<open>finally\<close> blocks, and then the queued updater, which React runs
  on the state as it is then.  An exception of the updater is outside every \<^verbatim>\<open>try\<close>
  block: the component fails to render, which is the result \<open>Inl\<close>.
\<close>

definition deleteFile_resume :: "jstring \<Rightarrow> reply \<Rightarrow> state \<Rightarrow> exn + state" where
  "deleteFile_resume fileId r s =
     (let (removal, s1) = (case deleteFile_body r s of
                             Inl err \<Rightarrow> (False, deleteFile_catch err s)
                           | Inr p \<Rightarrow> p);
          s2 = s1\<lparr>isDeleting := None\<rparr>
      in if removal
         then (case remove_file fileId (files s2) of
                 Inl err \<Rightarrow> Inl err
               | Inr fs \<Rightarrow> Inr (s2\<lparr>files := fs\<rparr>))
         else Inr s2)"

section \<open>The user interface\<close>

text \<open>Lines 116 to 119; \<^verbatim>\<open>e.preventDefault()\<close> does not touch the component's state.\<close>

definition handleSubmit :: "state \<Rightarrow> state" where
  "handleSubmit s = emit (StartCreatingDocument (description s)) s"

text \<open>
  What can happen to the mounted component: the effect of lines 51 to 57 runs, the user
  acts on a control, or a request of the component is answered.  An event on a control
  carries what the browser holds at that moment: the stored token, the route's project
  id, the chosen files.
\<close>

datatype event =
    Mounted env
  | ClickStartDocument
  | ClickBack
  | TypeDescription jstring
  | SubmitForm
  | ClickConversation
  | ClickContinue
  | FilesPicked env "blob list option"
  | FilesDropped env "blob list"
  | ClickDelete "jstring option" jstring
  | ListReplied reply
  | UploadReplied env "blob list" reply
  | DeleteReplied jstring reply

text \<open>
  A control acts only while it is rendered and enabled.  With \<^verbatim>\<open>step === "document"\<close>
  the form of lines 296 to 325 is rendered: the textarea, the back button, and the submit
  button, which is disabled while \<^verbatim>\<open>!description.trim()\<close>.  Otherwise the chooser of
  lines 327 to 435 is rendered: the drop area (disabled while \<^verbatim>\<open>isUploading\<close>), the file
  input, one delete button for each file (disabled while \<^verbatim>\<open>isDeleting === file.id\<close>), the
  continue button (while \<^verbatim>\<open>files.length > 0\<close>), and the two buttons of the authoring
  path.  A reply is handled whatever is rendered.
\<close>

text \<open>
  Modelled from the spec: the component \<^verbatim>\<open>DragDropArea\<close> of \<^verbatim>\<open>./drag-drop-area\<close> is
  not part of the source at hand.  The drop surface funnels its files into the same
  operation as the file picker, and the raised "uploading" flag suspends it.
\<close>

definition onFilesDrop :: "env \<Rightarrow> blob list \<Rightarrow> state \<Rightarrow> bool \<times> state" where
  "onFilesDrop e fileList s =
     (if isUploading s then (False, s) else processFiles_start e fileList s)"

definition delete_enabled :: "state \<Rightarrow> jstring \<Rightarrow> bool" where
  "delete_enabled s fileId =
     ((\<exists>file \<in> set (files s). file_id file = Inr (Some (JStr fileId)))
      \<and> isDeleting s \<noteq> Some fileId)"

fun react :: "event \<Rightarrow> state \<Rightarrow> exn + state" where
  "react (Mounted e) s = Inr (snd (mount e s))"
| "react ClickStartDocument s =
     Inr (if step s = Initial then s\<lparr>step := Document\<rparr> else s)"
| "react ClickBack s =
     Inr (if step s = Document then s\<lparr>step := Initial\<rparr> else s)"
| "react (TypeDescription v) s =
     Inr (if step s = Document then s\<lparr>description := v\<rparr> else s)"
| "react SubmitForm s =
     Inr (if step s = Document \<and> trim (description s) \<noteq> [] then handleSubmit s else s)"
| "react ClickConversation s =
     Inr (if step s = Initial then emit (StartCreatingDocument []) s else s)"
| "react ClickContinue s =
     Inr (if step s = Initial \<and> length (files s) > 0 then emit FilesUploaded s else s)"
| "react (FilesPicked e picked) s =
     Inr (if step s = Initial then snd (handleFileUpload e picked s) else s)"
| "react (FilesDropped e fileList) s =
     Inr (if step s = Initial then snd (onFilesDrop e fileList s) else s)"
| "react (ClickDelete tok fileId) s =
     Inr (if step s = Initial \<and> delete_enabled s fileId
          then snd (deleteFile_start tok fileId s) else s)"
| "react (ListReplied r) s = Inr (fetchFiles_resume r s)"
| "react (UploadReplied e fileList r) s = Inr (snd (processFiles_resume e fileList r s))"
| "react (DeleteReplied fileId r) s = deleteFile_resume fileId r s"

fun run :: "event list \<Rightarrow> state \<Rightarrow> exn + state" where
  "run [] s = Inr s"
| "run (ev # evs) s = (case react ev s of Inl err \<Rightarrow> Inl err | Inr s' \<Rightarrow> run evs s')"

section \<open>Notions used to state the properties\<close>

text \<open>The ids of the records of a store are pairwise different.\<close>

definition ids_unique :: "json list \<Rightarrow> bool" where
  "ids_unique fs = distinct (map file_id fs)"

text \<open>
  An event that starts or ends an ingestion, and an event whose accepted list (if it is a
  list reply that \<open>fetchFiles\<close> accepts) holds records, none \<^verbatim>\<open>null\<close>, with pairwise
  different ids.
\<close>

fun ingestion_event :: "event \<Rightarrow> bool" where
  "ingestion_event (FilesPicked e picked) = True"
| "ingestion_event (FilesDropped e fileList) = True"
| "ingestion_event (UploadReplied e fileList r) = True"
| "ingestion_event ev = False"

fun well_listed :: "event \<Rightarrow> bool" where
  "well_listed (ListReplied (Response True (Some result))) =
     (case select_files result of
        Inr (Some (JArr xs)) \<Rightarrow> JNull \<notin> set xs \<and> ids_unique xs
      | _ \<Rightarrow> True)"
| "well_listed ev = True"

text \<open>
  The bodies from which \<open>fetchFiles\<close> takes a list, described by their shape: an object
  with a truthy \<^verbatim>\<open>success\<close> or a truthy \<^verbatim>\<open>data\<close> member whose \<^verbatim>\<open>data\<close> member has an array
  as its \<^verbatim>\<open>files\<close> member, or an object with neither whose own \<^verbatim>\<open>files\<close> member is an
  array.  Nothing else is an envelope.
\<close>

fun envelope_files :: "json \<Rightarrow> json list option" where
  "envelope_files (JObj members) =
     (if truthy (own (JObj members) k_success) \<or> truthy (own (JObj members) k_data)
      then (case own (JObj members) k_data of
              None \<Rightarrow> None
            | Some d \<Rightarrow> (case own d k_files of Some (JArr xs) \<Rightarrow> Some xs | _ \<Rightarrow> None))
      else (case own (JObj members) k_files of Some (JArr xs) \<Rightarrow> Some xs | _ \<Rightarrow> None))"
| "envelope_files other = None"

text \<open>The requests among a sequence of effects, in the order they were issued.\<close>

fun requests_in :: "effect list \<Rightarrow> request list" where
  "requests_in [] = []"
| "requests_in (Fetch r # es) = r # requests_in es"
| "requests_in (other # es) = requests_in es"

definition requests :: "state \<Rightarrow> request list" where
  "requests s = requests_in (effects s)"

text \<open>The texts handed to \<^verbatim>\<open>onStartCreatingDocument\<close>, in the order of the calls.\<close>

fun seeds_in :: "effect list \<Rightarrow> jstring list" where
  "seeds_in [] = []"
| "seeds_in (StartCreatingDocument text # es) = text # seeds_in es"
| "seeds_in (other # es) = seeds_in es"

definition seeds :: "state \<Rightarrow> jstring list" where
  "seeds s = seeds_in (effects s)"

text \<open>
  The exception with which a \<^verbatim>\<open>try\<close> block ends when the reply is a rejected
  \<^verbatim>\<open>fetch\<close>, a body that is not JSON, or the body \<^verbatim>\<open>null\<close>.
\<close>

definition thrown :: "reply \<Rightarrow> exn" where
  "thrown r = (case r of Rejected \<Rightarrow> FetchRejected
                       | Response ok None \<Rightarrow> BodyNotJson
                       | Response ok (Some result) \<Rightarrow> TypeError)"

subsection \<open>Sample data\<close>

definition sample_token :: "jstring option" where
  "sample_token = Some (ascii ''t0k3n'')"

definition sample_env :: env where
  "sample_env = \<lparr>projectId = Some (ascii ''p1''), token = sample_token\<rparr>"

definition r_pdf :: json where
  "r_pdf = JObj [(k_id, JStr (ascii ''x'')), (ascii ''name'', JStr (ascii ''r.pdf'')),
                 (ascii ''size'', JNum 2048)]"

definition file_a :: json where
  "file_a = JObj [(k_id, JStr (ascii ''a''))]"

definition file_b :: json where
  "file_b = JObj [(k_id, JStr (ascii ''b''))]"

definition authoring :: state where
  "authoring = init\<lparr>step := Document\<rparr>"

definition described :: state where
  "described = init\<lparr>step := Document, description := ascii ''build me a shop''\<rparr>"

definition padded :: state where
  "padded = init\<lparr>step := Document, description := ascii '' hi ''\<rparr>"

definition blank :: state where
  "blank = init\<lparr>step := Document, description := [0x0020, 0x3000, 0x000A]\<rparr>"

definition listing :: "json list \<Rightarrow> reply" where
  "listing xs = Response True (Some (JObj [(k_data, JObj [(k_files, JArr xs)])]))"

definition acknowledged :: reply where
  "acknowledged = Response True (Some (JObj [(k_message, JStr (ascii ''ok''))]))"

section \<open>Basic facts\<close>

lemma code_unit_inj: "(of_nat (of_char a) :: 16 word) = of_nat (of_char b) \<longleftrightarrow> a = b"
proof -
  have small: "take_bit 16 (of_char c :: nat) = of_char c" for c
  proof -
    have "(of_char c :: nat) < 2 ^ 16"
      by (rule less_trans [OF nat_of_char_less_256]) simp
    then show ?thesis by (simp only: take_bit_nat_eq_self)
  qed
  show ?thesis
    by (simp add: word_of_nat_eq_iff small)
qed

lemma ascii_eq_iff [simp]: "ascii a = ascii b \<longleftrightarrow> a = b"
proof -
  have "inj (\<lambda>c. (of_nat (of_char c) :: 16 word))"
    by (rule injI) (simp add: code_unit_inj)
  then show ?thesis
    unfolding ascii_def by (rule inj_map_eq_map)
qed

lemma ascii_Nil_iff [simp]: "ascii a = [] \<longleftrightarrow> a = []"
  by (simp add: ascii_def)

lemmas key_defs = k_success_def k_data_def k_files_def k_message_def k_id_def

lemma get_prop_non_null: "result \<noteq> JNull \<Longrightarrow> get_prop (Some result) k = Inr (own result k)"
  by (cases result) (simp_all add: get_prop_def)

lemma get_prop_null: "get_prop (Some JNull) k = Inl TypeError"
  by (simp add: get_prop_def)

lemma requests_in_append: "requests_in (es @ fs) = requests_in es @ requests_in fs"
  by (induction es rule: requests_in.induct) simp_all

lemma requests_emit:
  "requests (emit x s) = requests s @ requests_in [x]"
  by (simp add: requests_def emit_def requests_in_append)

lemma seeds_in_append: "seeds_in (es @ fs) = seeds_in es @ seeds_in fs"
  by (induction es rule: seeds_in.induct) simp_all

subsection \<open>fetchFiles\<close>

lemma select_files_data_envelope:
  "select_files (JObj [(k_data, JObj [(k_files, JArr xs)])]) = Inr (Some (JArr xs))"
  by (simp add: select_files_def get_prop_def key_defs)

lemma select_files_files_envelope:
  "select_files (JObj [(k_files, JArr xs)]) = Inr (Some (JArr xs))"
  by (simp add: select_files_def get_prop_def key_defs)

lemma select_files_success_envelope:
  "select_files (JObj [(k_success, JBool True), (k_data, JObj [(k_files, JArr xs)])])
     = Inr (Some (JArr xs))"
  by (simp add: select_files_def get_prop_def key_defs)

lemma fetchFiles_resume_accepted:
  "select_files result = Inr (Some (JArr xs)) \<Longrightarrow>
   fetchFiles_resume (Response True (Some result)) s =
     s\<lparr>files := xs, isLoading := False,
        effects := effects s @
          [Console Log (ascii ''Files fetched successfully:'') (Val (Some (JArr xs)))]\<rparr>"
  by (simp add: fetchFiles_resume_def fetchFiles_body_def emit_def)

lemma fetchFiles_resume_other:
  assumes "\<forall>xs. select_files result \<noteq> Inr (Some (JArr xs))"
  shows "files (fetchFiles_resume (Response True (Some result)) s) = files s"
    and "\<exists>label v d. d \<in> {txt_bad_format, txt_check_network}
           \<and> effects (fetchFiles_resume (Response True (Some result)) s)
               = effects s @ [Console Err label v, Toast txt_list_failed (JStr d) Destructive]"
  using assms
  by (auto simp add: fetchFiles_resume_def fetchFiles_body_def fetchFiles_catch_def emit_def
      split: sum.splits option.splits json.splits)

lemma files_fetchFiles_start: "files (snd (fetchFiles_start e s)) = files s"
  by (simp add: fetchFiles_start_def fetchFiles_catch_def emit_def Let_def)

lemma fetchFiles_start_frame:
  "fetchFiles_start e s = (p, s') \<Longrightarrow>
   files s' = files s \<and> isUploading s' = isUploading s \<and> isDeleting s' = isDeleting s
   \<and> step s' = step s \<and> description s' = description s
   \<and> seeds_in (effects s') = seeds_in (effects s)"
  by (auto simp add: fetchFiles_start_def fetchFiles_catch_def emit_def Let_def seeds_in_append
      split: if_splits)

lemma select_files_envelope:
  "select_files result = Inr (Some (JArr xs)) \<longleftrightarrow> envelope_files result = Some xs"
proof (cases result)
  case (JObj members)
  show ?thesis
  proof (cases "own (JObj members) k_data")
    case None
    then show ?thesis
      using JObj
      by (auto simp add: select_files_def get_prop_def split: option.splits json.splits)
  next
    case (Some d)
    then show ?thesis
      using JObj
      by (cases d)
        (auto simp add: select_files_def get_prop_def split: option.splits json.splits)
  qed
qed (simp_all add: select_files_def get_prop_def)

lemma fetchFiles_resume_envelope:
  "files (fetchFiles_resume (Response True (Some result)) s)
     = (case envelope_files result of None \<Rightarrow> files s | Some xs \<Rightarrow> xs)"
proof (cases "envelope_files result")
  case None
  then have "\<forall>xs. select_files result \<noteq> Inr (Some (JArr xs))"
    by (simp add: select_files_envelope)
  then show ?thesis
    using None by (simp add: fetchFiles_resume_other(1))
next
  case (Some xs)
  then have "select_files result = Inr (Some (JArr xs))"
    by (simp add: select_files_envelope)
  then show ?thesis
    using Some by (simp add: fetchFiles_resume_accepted)
qed
subsection \<open>processFiles\<close>

lemma processFiles_start_issued:
  "present (projectId e) \<Longrightarrow> present (token e) \<Longrightarrow>
   processFiles_start e fileList s =
     (True, s\<lparr>isUploading := True,
              effects := effects s @ [Fetch (Upload (str_of (token e)) (str_of (projectId e)) fileList)]\<rparr>)"
  by (simp add: processFiles_start_def emit_def)

lemma files_processFiles_start: "files (snd (processFiles_start e fileList s)) = files s"
  by (simp add: processFiles_start_def processFiles_catch_def emit_def Let_def)

lemma files_processFiles_resume: "files (snd (processFiles_resume e fileList r s)) = files s"
proof -
  have "files (snd p) = files s" if "processFiles_body e fileList r s = Inr p" for p
    using that
    by (auto simp add: processFiles_body_def emit_def Let_def
        split: reply.splits option.splits if_splits sum.splits prod.splits
        dest!: fetchFiles_start_frame)
  then show ?thesis
    by (auto simp add: processFiles_resume_def processFiles_catch_def emit_def
        split: sum.splits prod.splits)
qed

lemma processFiles_resume_success:
  assumes "present (projectId e)" and "present (token e)" and "result \<noteq> JNull"
  shows "processFiles_resume e fileList (Response True (Some result)) s =
     (True, s\<lparr>isUploading := False, isLoading := True,
              effects := effects s @
                [Toast txt_upload_ok
                   (or_else (own result k_message) (JStr (uploaded_message (length fileList)))) Default,
                 Fetch (ListFiles (str_of (token e)) (str_of (projectId e))),
                 FilesUploaded]\<rparr>)"
  using assms
  by (simp add: processFiles_resume_def processFiles_body_def get_prop_non_null
      fetchFiles_start_def emit_def)

lemma processFiles_resume_failure:
  assumes "r = Rejected \<or> r = Response ok None \<or> r = Response False body \<or> r = Response True (Some JNull)"
  shows "requests (snd (processFiles_resume e fileList r s)) = requests s"
    and "\<not> fst (processFiles_resume e fileList r s)"
  using assms
  by (auto simp add: processFiles_resume_def processFiles_body_def processFiles_catch_def
      get_prop_null emit_def requests_def requests_in_append
      split: sum.splits option.splits)

subsection \<open>deleteFile\<close>

lemma file_id_non_null: "file \<noteq> JNull \<Longrightarrow> file_id file = Inr (own file k_id)"
  by (simp add: file_id_def get_prop_non_null)

lemma remove_file_filter:
  "JNull \<notin> set fs \<Longrightarrow>
   remove_file X fs = Inr (filter (\<lambda>file. own file k_id \<noteq> Some (JStr X)) fs)"
  by (induction fs) (auto simp add: file_id_non_null)

lemma get_prop_Inl: "get_prop v k = Inl err \<Longrightarrow> err = TypeError"
  by (auto simp add: get_prop_def split: option.splits json.splits)

lemma remove_file_null: "JNull \<in> set fs \<Longrightarrow> remove_file X fs = Inl TypeError"
  by (induction fs)
    (auto simp add: file_id_def get_prop_null split: sum.splits dest: get_prop_Inl)

lemma deleteFile_start_issued:
  "present tok \<Longrightarrow>
   deleteFile_start tok X s =
     (True, s\<lparr>isDeleting := Some X, effects := effects s @ [Fetch (Delete (str_of tok) X)]\<rparr>)"
  by (simp add: deleteFile_start_def emit_def)

lemma deleteFile_start_unauthorized:
  "\<not> present tok \<Longrightarrow>
   deleteFile_start tok X s =
     (False, s\<lparr>isDeleting := None,
               effects := effects s @
                 [Console Err log_delete_error (Exn (Error txt_unauthorized)),
                  Toast txt_delete_failed (JStr txt_check_network) Destructive]\<rparr>)"
  by (simp add: deleteFile_start_def deleteFile_catch_def emit_def)

lemma deleteFile_resume_success:
  assumes "result \<noteq> JNull" and "JNull \<notin> set (files s)"
  shows "deleteFile_resume X (Response True (Some result)) s =
     Inr (s\<lparr>isDeleting := None,
             files := filter (\<lambda>file. own file k_id \<noteq> Some (JStr X)) (files s),
             effects := effects s @
               [Toast txt_delete_ok
                  (or_else (or_js (own result k_message) (opt_prop (own result k_data) k_message))
                     (JStr txt_file_deleted)) Default]\<rparr>)"
  using assms
  by (simp add: deleteFile_resume_def deleteFile_body_def get_prop_non_null emit_def
      remove_file_filter)

lemma deleteFile_resume_reported_failure:
  assumes "result \<noteq> JNull"
  shows "deleteFile_resume X (Response False (Some result)) s =
     Inr (s\<lparr>isDeleting := None,
             effects := effects s @
               [Console Err log_delete_failed
                  (Val (Some (or_else (own result k_message) (JStr txt_unknown_error)))),
                Toast txt_delete_failed
                  (or_else (own result k_message) (JStr txt_unknown_error)) Destructive]\<rparr>)"
  using assms
  by (simp add: deleteFile_resume_def deleteFile_body_def get_prop_non_null emit_def)

lemma deleteFile_resume_thrown:
  assumes "r = Rejected \<or> r = Response ok None \<or> r = Response ok (Some JNull)"
  shows "deleteFile_resume X r s =
     Inr (s\<lparr>isDeleting := None,
             effects := effects s @
               [Console Err log_delete_error (Exn (thrown r)),
                Toast txt_delete_failed (JStr txt_check_network) Destructive]\<rparr>)"
  using assms
  by (auto simp add: deleteFile_resume_def deleteFile_body_def deleteFile_catch_def
      get_prop_null emit_def thrown_def)

lemma deleteFile_resume_frame:
  assumes "deleteFile_resume X r s = Inr s'"
  shows "isDeleting s' = None \<and> isUploading s' = isUploading s \<and> step s' = step s
         \<and> description s' = description s \<and> isLoading s' = isLoading s
         \<and> requests s' = requests s"
  using assms
  by (auto simp add: deleteFile_resume_def deleteFile_body_def deleteFile_catch_def emit_def
      Let_def requests_def requests_in_append
      split: reply.splits option.splits if_splits sum.splits prod.splits)

lemma reply_cases:
  obtains "r = Rejected"
    | ok where "r = Response ok None"
    | ok where "r = Response ok (Some JNull)"
    | result where "r = Response True (Some result)" "result \<noteq> JNull"
    | result where "r = Response False (Some result)" "result \<noteq> JNull"
proof (cases r)
  case Rejected
  then show ?thesis using that by blast
next
  case (Response ok body)
  show ?thesis
  proof (cases body)
    case None
    with Response show ?thesis using that by blast
  next
    case (Some result)
    with Response show ?thesis using that by (cases ok; cases "result = JNull") auto
  qed
qed

lemma deleteFile_resume_total:
  assumes "JNull \<notin> set (files s)"
  shows "\<exists>s'. deleteFile_resume X r s = Inr s'
           \<and> (files s' = files s
                \<or> files s' = filter (\<lambda>file. own file k_id \<noteq> Some (JStr X)) (files s))"
proof (cases r rule: reply_cases)
  case (4 result)
  then show ?thesis using assms by (simp add: deleteFile_resume_success)
next
  case (5 result)
  then show ?thesis by (simp add: deleteFile_resume_reported_failure)
qed (simp_all add: deleteFile_resume_thrown)

subsection \<open>What each operation leaves alone\<close>

lemma fetchFiles_start_seeds: "seeds (snd (fetchFiles_start e s)) = seeds s"
  by (simp add: fetchFiles_start_def fetchFiles_catch_def emit_def Let_def seeds_def
      seeds_in_append)

lemma fetchFiles_resume_frame:
  "isUploading (fetchFiles_resume r s) = isUploading s
   \<and> isDeleting (fetchFiles_resume r s) = isDeleting s
   \<and> step (fetchFiles_resume r s) = step s
   \<and> description (fetchFiles_resume r s) = description s
   \<and> seeds (fetchFiles_resume r s) = seeds s"
  by (auto simp add: fetchFiles_resume_def fetchFiles_body_def fetchFiles_catch_def emit_def
      seeds_def seeds_in_append
      split: reply.splits option.splits sum.splits json.splits)

lemma fetchFiles_resume_files:
  "files (fetchFiles_resume r s) = files s
   \<or> (\<exists>result xs. r = Response True (Some result) \<and> select_files result = Inr (Some (JArr xs))
         \<and> files (fetchFiles_resume r s) = xs)"
  by (auto simp add: fetchFiles_resume_def fetchFiles_body_def fetchFiles_catch_def emit_def
      split: reply.splits option.splits sum.splits json.splits)

lemma mount_frame:
  "files (snd (mount e s)) = files s \<and> isUploading (snd (mount e s)) = isUploading s
   \<and> isDeleting (snd (mount e s)) = isDeleting s \<and> step (snd (mount e s)) = step s
   \<and> description (snd (mount e s)) = description s \<and> seeds (snd (mount e s)) = seeds s"
  by (simp add: mount_def fetchFiles_start_def fetchFiles_catch_def emit_def Let_def seeds_def
      seeds_in_append)

lemma processFiles_start_frame:
  "files (snd (processFiles_start e fileList s)) = files s
   \<and> isDeleting (snd (processFiles_start e fileList s)) = isDeleting s
   \<and> step (snd (processFiles_start e fileList s)) = step s
   \<and> description (snd (processFiles_start e fileList s)) = description s
   \<and> seeds (snd (processFiles_start e fileList s)) = seeds s"
  by (simp add: processFiles_start_def processFiles_catch_def emit_def Let_def seeds_def
      seeds_in_append)

lemma processFiles_body_frame:
  assumes "processFiles_body e fileList r s = Inr (p, s')"
  shows "files s' = files s \<and> isDeleting s' = isDeleting s \<and> step s' = step s
         \<and> description s' = description s \<and> seeds s' = seeds s"
  using assms
  by (auto simp add: processFiles_body_def emit_def Let_def seeds_def seeds_in_append
      split: reply.splits option.splits if_splits sum.splits prod.splits
      dest!: fetchFiles_start_frame)

lemma processFiles_resume_frame:
  "files (snd (processFiles_resume e fileList r s)) = files s
   \<and> isDeleting (snd (processFiles_resume e fileList r s)) = isDeleting s
   \<and> step (snd (processFiles_resume e fileList r s)) = step s
   \<and> description (snd (processFiles_resume e fileList r s)) = description s
   \<and> seeds (snd (processFiles_resume e fileList r s)) = seeds s"
proof (cases "processFiles_body e fileList r s")
  case (Inl err)
  then show ?thesis
    by (simp add: processFiles_resume_def processFiles_catch_def emit_def seeds_def
        seeds_in_append)
next
  case (Inr ps)
  obtain p s' where ps: "ps = (p, s')" by (cases ps)
  with Inr processFiles_body_frame [of e fileList r s p s'] show ?thesis
    by (simp add: processFiles_resume_def seeds_def)
qed

lemma processFiles_resume_lowers_flag:
  "\<not> isUploading (snd (processFiles_resume e fileList r s))"
  by (simp add: processFiles_resume_def split: sum.splits prod.splits)

lemma deleteFile_start_frame:
  "files (snd (deleteFile_start tok X s)) = files s
   \<and> isUploading (snd (deleteFile_start tok X s)) = isUploading s
   \<and> step (snd (deleteFile_start tok X s)) = step s
   \<and> description (snd (deleteFile_start tok X s)) = description s
   \<and> seeds (snd (deleteFile_start tok X s)) = seeds s"
  by (simp add: deleteFile_start_def deleteFile_catch_def emit_def Let_def seeds_def
      seeds_in_append)

lemma deleteFile_resume_seeds:
  assumes "deleteFile_resume X r s = Inr s'"
  shows "seeds s' = seeds s"
  using assms
  by (auto simp add: deleteFile_resume_def deleteFile_body_def deleteFile_catch_def emit_def
      Let_def seeds_def seeds_in_append
      split: reply.splits option.splits if_splits sum.splits prod.splits)

subsection \<open>Events\<close>

lemma react_keeps_uploading:
  assumes "\<not> ingestion_event ev" and "react ev s = Inr s'"
  shows "isUploading s' = isUploading s"
proof (cases ev)
  case (Mounted e)
  with assms show ?thesis using mount_frame [of e s] by auto
next
  case (ClickDelete tok X)
  with assms show ?thesis using deleteFile_start_frame [of tok X s] by (auto split: if_splits)
next
  case (ListReplied r)
  with assms show ?thesis using fetchFiles_resume_frame [of r s] by auto
next
  case (DeleteReplied X r)
  with assms show ?thesis using deleteFile_resume_frame [of X r s s'] by auto
qed (use assms in \<open>auto simp add: handleSubmit_def emit_def split: if_splits\<close>)

lemma run_keeps_uploading:
  assumes "\<forall>ev \<in> set evs. \<not> ingestion_event ev" and "run evs s = Inr s'"
  shows "isUploading s' = isUploading s"
  using assms
proof (induction evs arbitrary: s)
  case Nil
  then show ?case by simp
next
  case (Cons ev evs)
  from Cons.prems(2) obtain s1 where s1: "react ev s = Inr s1" and rest: "run evs s1 = Inr s'"
    by (auto split: sum.splits)
  from Cons.prems(1) have "\<not> ingestion_event ev"
    by simp
  then have "isUploading s1 = isUploading s"
    using s1 by (rule react_keeps_uploading)
  moreover from Cons.IH [OF _ rest] Cons.prems(1) have "isUploading s' = isUploading s1"
    by simp
  ultimately show ?case by simp
qed

lemma ids_unique_filter: "ids_unique fs \<Longrightarrow> ids_unique (filter P fs)"
  by (simp add: ids_unique_def distinct_map_filter)

lemma react_keeps_unique:
  assumes "JNull \<notin> set (files s)" and "ids_unique (files s)" and "well_listed ev"
  shows "\<exists>s'. react ev s = Inr s' \<and> JNull \<notin> set (files s') \<and> ids_unique (files s')"
proof (cases ev)
  case (Mounted e)
  with assms show ?thesis using mount_frame [of e s] by simp
next
  case (FilesPicked e picked)
  with assms show ?thesis
    using processFiles_start_frame [of e _ s]
    by (auto simp add: handleFileUpload_def split: option.splits)
next
  case (FilesDropped e fileList)
  with assms show ?thesis
    using processFiles_start_frame [of e fileList s] by (simp add: onFilesDrop_def)
next
  case (ClickDelete tok X)
  with assms show ?thesis using deleteFile_start_frame [of tok X s] by simp
next
  case (ListReplied r)
  from fetchFiles_resume_files [of r s] show ?thesis
  proof
    assume "files (fetchFiles_resume r s) = files s"
    with assms ListReplied show ?thesis by simp
  next
    assume "\<exists>result xs. r = Response True (Some result)
              \<and> select_files result = Inr (Some (JArr xs)) \<and> files (fetchFiles_resume r s) = xs"
    then obtain result xs where "r = Response True (Some result)"
      and "select_files result = Inr (Some (JArr xs))" and "files (fetchFiles_resume r s) = xs"
      by blast
    with assms(3) ListReplied show ?thesis by simp
  qed
next
  case (UploadReplied e fileList r)
  with assms show ?thesis using processFiles_resume_frame [of e fileList r s] by simp
next
  case (DeleteReplied X r)
  from deleteFile_resume_total [OF assms(1), of X r] obtain s'
    where s': "deleteFile_resume X r s = Inr s'"
      and "files s' = files s
           \<or> files s' = filter (\<lambda>file. own file k_id \<noteq> Some (JStr X)) (files s)"
    by blast
  then have "JNull \<notin> set (files s') \<and> ids_unique (files s')"
    using assms(1,2) by (auto simp add: ids_unique_filter)
  with s' DeleteReplied show ?thesis by simp
qed (use assms in \<open>simp_all add: handleSubmit_def emit_def\<close>)

lemma run_keeps_unique:
  assumes "JNull \<notin> set (files s)" and "ids_unique (files s)"
    and "\<forall>ev \<in> set evs. well_listed ev"
  shows "\<exists>s'. run evs s = Inr s' \<and> JNull \<notin> set (files s') \<and> ids_unique (files s')"
  using assms
proof (induction evs arbitrary: s)
  case Nil
  then show ?case by simp
next
  case (Cons ev evs)
  from Cons.prems have "well_listed ev" by simp
  with Cons.prems(1,2) obtain s1 where s1: "react ev s = Inr s1"
    and inv: "JNull \<notin> set (files s1)" "ids_unique (files s1)"
    using react_keeps_unique by blast
  from Cons.IH [OF inv] Cons.prems(3) obtain s' where "run evs s1 = Inr s'"
    and "JNull \<notin> set (files s')" and "ids_unique (files s')"
    by auto
  with s1 show ?case by simp
qed

lemma react_step_change:
  assumes "react ev s = Inr s'" and "step s' \<noteq> step s"
  shows "(ev = ClickStartDocument \<and> step s = Initial \<and> step s' = Document)
       \<or> (ev = ClickBack \<and> step s = Document \<and> step s' = Initial)"
proof (cases ev)
  case (Mounted e)
  with assms show ?thesis using mount_frame [of e s] by auto
next
  case (FilesPicked e picked)
  with assms show ?thesis
    using processFiles_start_frame [of e _ s]
    by (auto simp add: handleFileUpload_def split: option.splits if_splits)
next
  case (FilesDropped e fileList)
  with assms show ?thesis
    using processFiles_start_frame [of e fileList s]
    by (auto simp add: onFilesDrop_def split: if_splits)
next
  case (ClickDelete tok X)
  with assms show ?thesis using deleteFile_start_frame [of tok X s] by (auto split: if_splits)
next
  case (ListReplied r)
  with assms show ?thesis using fetchFiles_resume_frame [of r s] by auto
next
  case (UploadReplied e fileList r)
  with assms show ?thesis using processFiles_resume_frame [of e fileList r s] by auto
next
  case (DeleteReplied X r)
  with assms show ?thesis using deleteFile_resume_frame [of X r s s'] by auto
qed (use assms in \<open>auto simp add: handleSubmit_def emit_def split: if_splits\<close>)

lemma react_seeds_change:
  assumes "react ev s = Inr s'" and "seeds s' \<noteq> seeds s"
  shows "(ev = SubmitForm \<and> step s = Document \<and> trim (description s) \<noteq> []
            \<and> seeds s' = seeds s @ [description s])
       \<or> (ev = ClickConversation \<and> step s = Initial \<and> seeds s' = seeds s @ [[]])"
proof (cases ev)
  case (Mounted e)
  with assms show ?thesis using mount_frame [of e s] by auto
next
  case (FilesPicked e picked)
  with assms show ?thesis
    using processFiles_start_frame [of e _ s]
    by (auto simp add: handleFileUpload_def split: option.splits if_splits)
next
  case (FilesDropped e fileList)
  with assms show ?thesis
    using processFiles_start_frame [of e fileList s]
    by (auto simp add: onFilesDrop_def split: if_splits)
next
  case (ClickDelete tok X)
  with assms show ?thesis using deleteFile_start_frame [of tok X s] by (auto split: if_splits)
next
  case (ListReplied r)
  with assms show ?thesis using fetchFiles_resume_frame [of r s] by auto
next
  case (UploadReplied e fileList r)
  with assms show ?thesis using processFiles_resume_frame [of e fileList r s] by auto
next
  case (DeleteReplied X r)
  with assms show ?thesis using deleteFile_resume_seeds [of X r s s'] by auto
qed (use assms in \<open>auto simp add: handleSubmit_def emit_def seeds_def seeds_in_append
       split: if_splits\<close>)

section \<open>Properties of the component\<close>

text \<open>
  C1 (as amended).  For an \<^verbatim>\<open>ok\<close> list response \<open>fetchFiles\<close> accepts the envelope
  \<^verbatim>\<open>{data: {files: [...]}}\<close>, with or without a truthy \<^verbatim>\<open>success\<close> member, and the envelope
  \<^verbatim>\<open>{files: [...]}\<close>: it accepts a body exactly when the expression of line 83 selects an
  array from it, which are exactly the bodies of the shapes of \<open>envelope_files\<close>.  The
  store is then that array, record for record.  For every other body, a top-level array
  included, the store keeps its contents and one failure toast is shown, with the
  malformed-data message or, when reading the body throws, with the check-the-network
  message.
\<close>

theorem fetchFiles_tolerated_envelopes:
  "files (fetchFiles_resume (Response True (Some (JObj [(k_data, JObj [(k_files, JArr xs)])]))) s) = xs
   \<and> files (fetchFiles_resume (Response True (Some (JObj [(k_files, JArr xs)]))) s) = xs
   \<and> files (fetchFiles_resume (Response True
        (Some (JObj [(k_success, JBool True), (k_data, JObj [(k_files, JArr xs)])]))) s) = xs
   \<and> (select_files result = Inr (Some (JArr xs)) \<longrightarrow>
        files (fetchFiles_resume (Response True (Some result)) s) = xs)
   \<and> ((\<forall>ys. select_files result \<noteq> Inr (Some (JArr ys))) \<longrightarrow>
        files (fetchFiles_resume (Response True (Some result)) s) = files s
        \<and> (\<exists>label v d. d \<in> {txt_bad_format, txt_check_network}
              \<and> effects (fetchFiles_resume (Response True (Some result)) s)
                  = effects s @ [Console Err label v, Toast txt_list_failed (JStr d) Destructive]))
   \<and> files (fetchFiles_resume (Response True (Some (JArr xs))) s) = files s
   \<and> (select_files result = Inr (Some (JArr xs))) = (envelope_files result = Some xs)
   \<and> files (fetchFiles_resume (Response True (Some result)) s)
       = (case envelope_files result of None \<Rightarrow> files s | Some ys \<Rightarrow> ys)"
proof -
  have "files (fetchFiles_resume (Response True (Some (JArr xs))) s) = files s"
    by (rule fetchFiles_resume_other(1)) (simp add: select_files_def get_prop_def)
  moreover have "files (fetchFiles_resume (Response True (Some result)) s)
       = (case envelope_files result of None \<Rightarrow> files s | Some ys \<Rightarrow> ys)"
    by (rule fetchFiles_resume_envelope)
  moreover have "(select_files result = Inr (Some (JArr xs))) = (envelope_files result = Some xs)"
    by (rule select_files_envelope)
  moreover have "files (fetchFiles_resume (Response True (Some result)) s) = xs"
    if "select_files result = Inr (Some (JArr xs))"
    using that by (simp add: fetchFiles_resume_accepted)
  moreover have "files (fetchFiles_resume
      (Response True (Some (JObj [(k_data, JObj [(k_files, JArr xs)])]))) s) = xs"
    by (simp add: fetchFiles_resume_accepted select_files_data_envelope)
  moreover have "files (fetchFiles_resume (Response True (Some (JObj [(k_files, JArr xs)]))) s) = xs"
    by (simp add: fetchFiles_resume_accepted select_files_files_envelope)
  moreover have "files (fetchFiles_resume (Response True
        (Some (JObj [(k_success, JBool True), (k_data, JObj [(k_files, JArr xs)])]))) s) = xs"
    by (simp add: fetchFiles_resume_accepted select_files_success_envelope)
  ultimately show ?thesis
    using fetchFiles_resume_other [of result s] by blast
qed

theorem fetchFiles_tolerated_envelopes_witness:
  "select_files (JObj [(k_data, JObj [(k_files, JArr [r_pdf])])]) = Inr (Some (JArr [r_pdf]))
   \<and> files (fetchFiles_resume (listing [r_pdf]) init) = [r_pdf]
   \<and> (\<forall>ys. select_files (JObj [(k_success, JBool True)]) \<noteq> Inr (Some (JArr ys)))
   \<and> files (fetchFiles_resume (Response True (Some (JObj [(k_success, JBool True)]))) init)
       = files init"
proof -
  have a: "select_files (JObj [(k_data, JObj [(k_files, JArr [r_pdf])])]) = Inr (Some (JArr [r_pdf]))"
    by (rule select_files_data_envelope)
  have b: "\<forall>ys. select_files (JObj [(k_success, JBool True)]) \<noteq> Inr (Some (JArr ys))"
    by (simp add: select_files_def get_prop_def key_defs)
  from a b show ?thesis
    using fetchFiles_tolerated_envelopes
            [of "[r_pdf]" init "JObj [(k_data, JObj [(k_files, JArr [r_pdf])])]"]
      fetchFiles_tolerated_envelopes [of "[]" init "JObj [(k_success, JBool True)]"]
    by (simp add: listing_def)
qed

text \<open>
  C1 as stated fails: an \<^verbatim>\<open>ok\<close> response whose body is the top-level array
  \<^verbatim>\<open>[{id: "x", name: "r.pdf", size: 2048}]\<close> does not reach the store; it is reported as
  malformed data.
\<close>

theorem fetchFiles_top_level_array_counterexample:
  "files (fetchFiles_resume (Response True (Some (JArr [r_pdf]))) init) \<noteq> [r_pdf]
   \<and> effects (fetchFiles_resume (Response True (Some (JArr [r_pdf]))) init)
       = [Console Err (ascii ''Invalid file data format:'') (Val None),
          Toast txt_list_failed (JStr txt_bad_format) Destructive]"
  by (simp add: fetchFiles_resume_def fetchFiles_body_def select_files_def get_prop_def
      emit_def init_def)

text \<open>
  C2.  An ingestion never writes the store itself: neither the start of \<open>processFiles\<close>
  nor its completion, whatever the reply, changes \<open>files\<close>, and the start issues the upload
  request only.  When the upload is answered with success (an \<^verbatim>\<open>ok\<close> response whose body is
  JSON other than \<^verbatim>\<open>null\<close>), the completion shows the success toast and only then issues one
  list request, followed by the "files changed" notification; once that list request is
  answered with an accepted list \<open>xs\<close>, the store is exactly \<open>xs\<close>.  When the upload fails
  (rejected, not JSON, not \<^verbatim>\<open>ok\<close>, or \<^verbatim>\<open>null\<close>), no request is issued and the store is as
  it was.
\<close>

theorem upload_refreshes_from_list_only:
  assumes "present (projectId e)" and "present (token e)" and "result \<noteq> JNull"
    and "select_files listed = Inr (Some (JArr xs))"
    and "failed = Rejected \<or> failed = Response ok None \<or> failed = Response False body
         \<or> failed = Response True (Some JNull)"
  shows "files (snd (processFiles_start e fileList s)) = files s
    \<and> requests (snd (processFiles_start e fileList s))
         = requests s @ [Upload (str_of (token e)) (str_of (projectId e)) fileList]
    \<and> files (snd (processFiles_resume e fileList r s)) = files s
    \<and> processFiles_resume e fileList (Response True (Some result)) s =
         (True, s\<lparr>isUploading := False, isLoading := True,
                  effects := effects s @
                    [Toast txt_upload_ok
                       (or_else (own result k_message) (JStr (uploaded_message (length fileList))))
                       Default,
                     Fetch (ListFiles (str_of (token e)) (str_of (projectId e))),
                     FilesUploaded]\<rparr>)
    \<and> files (fetchFiles_resume (Response True (Some listed))
                (snd (processFiles_resume e fileList (Response True (Some result)) s))) = xs
    \<and> requests (snd (processFiles_resume e fileList failed s)) = requests s
    \<and> files (snd (processFiles_resume e fileList failed s)) = files s"
proof -
  have "requests (snd (processFiles_start e fileList s))
          = requests s @ [Upload (str_of (token e)) (str_of (projectId e)) fileList]"
    using assms(1,2) by (simp add: processFiles_start_issued requests_def requests_in_append)
  moreover have "files (fetchFiles_resume (Response True (Some listed))
                (snd (processFiles_resume e fileList (Response True (Some result)) s))) = xs"
    using assms(4) by (simp add: fetchFiles_resume_accepted)
  moreover have "requests (snd (processFiles_resume e fileList failed s)) = requests s"
    using assms(5) by (rule processFiles_resume_failure(1))
  ultimately show ?thesis
    using assms(1-3)
    by (simp add: files_processFiles_start files_processFiles_resume processFiles_resume_success)
qed

theorem upload_refreshes_from_list_only_witness:
  "present (projectId sample_env) \<and> present (token sample_env)
   \<and> JObj [(k_message, JStr (ascii ''ok''))] \<noteq> JNull
   \<and> select_files (JObj [(k_data, JObj [(k_files, JArr [r_pdf])])]) = Inr (Some (JArr [r_pdf]))
   \<and> files (fetchFiles_resume (listing [r_pdf])
        (snd (processFiles_resume sample_env [Blob (ascii ''r.pdf'') 2048] acknowledged init)))
       = [r_pdf]
   \<and> requests (snd (processFiles_resume sample_env [Blob (ascii ''r.pdf'') 2048] Rejected init))
       = requests init
   \<and> files (snd (processFiles_resume sample_env [Blob (ascii ''r.pdf'') 2048] Rejected init))
       = files init"
proof -
  have p: "present (projectId sample_env)" and t: "present (token sample_env)"
    by (simp_all add: sample_env_def sample_token_def present_def)
  have n: "JObj [(k_message, JStr (ascii ''ok''))] \<noteq> JNull"
    by simp
  have l: "select_files (JObj [(k_data, JObj [(k_files, JArr [r_pdf])])]) = Inr (Some (JArr [r_pdf]))"
    by (rule select_files_data_envelope)
  have f: "Rejected = Rejected \<or> Rejected = Response True None \<or> Rejected = Response False None
         \<or> Rejected = Response True (Some JNull)"
    by simp
  note w = upload_refreshes_from_list_only [OF p t n l f,
      where fileList = "[Blob (ascii ''r.pdf'') 2048]" and s = init]
  from w have "files (fetchFiles_resume (listing [r_pdf])
        (snd (processFiles_resume sample_env [Blob (ascii ''r.pdf'') 2048] acknowledged init)))
       = [r_pdf]"
    unfolding listing_def acknowledged_def by blast
  moreover from w have "requests (snd (processFiles_resume sample_env [Blob (ascii ''r.pdf'') 2048] Rejected init))
       = requests init"
    by blast
  moreover from w have "files (snd (processFiles_resume sample_env [Blob (ascii ''r.pdf'') 2048] Rejected init))
       = files init"
    by blast
  ultimately show ?thesis
    using p t n l by blast
qed

text \<open>
  C3.  Let the store hold records (no \<^verbatim>\<open>null\<close> element).  A delete of \<open>X\<close> that the backend
  confirms (an \<^verbatim>\<open>ok\<close> response whose body is JSON other than \<^verbatim>\<open>null\<close>) removes the records
  whose id is \<open>X\<close> and keeps every other record, in order; it shows the success toast and
  issues no request.  A delete that the backend answers with a failure keeps the store and
  shows the failure toast with the backend's message when that is truthy, and with the
  fallback "unknown error" when the body has no message or a falsy one; a delete whose
  reply cannot be read keeps the store and shows the failure toast with the fallback
  "check the network".  The success toast likewise carries the backend's message, else the
  message of the \<^verbatim>\<open>data\<close> member, else the fallback "file deleted".
\<close>

theorem deleteFile_removes_exactly:
  assumes "JNull \<notin> set (files s)" and "result \<noteq> JNull"
    and "r = Rejected \<or> r = Response ok None \<or> r = Response ok (Some JNull)"
  shows "deleteFile_resume X (Response True (Some result)) s =
           Inr (s\<lparr>isDeleting := None,
                   files := filter (\<lambda>file. own file k_id \<noteq> Some (JStr X)) (files s),
                   effects := effects s @
                     [Toast txt_delete_ok
                        (or_else (or_js (own result k_message)
                                    (opt_prop (own result k_data) k_message))
                           (JStr txt_file_deleted)) Default]\<rparr>)
       \<and> deleteFile_resume X (Response False (Some result)) s =
           Inr (s\<lparr>isDeleting := None,
                   effects := effects s @
                     [Console Err log_delete_failed
                        (Val (Some (or_else (own result k_message) (JStr txt_unknown_error)))),
                      Toast txt_delete_failed
                        (or_else (own result k_message) (JStr txt_unknown_error)) Destructive]\<rparr>)
       \<and> deleteFile_resume X r s =
           Inr (s\<lparr>isDeleting := None,
                   effects := effects s @
                     [Console Err log_delete_error (Exn (thrown r)),
                      Toast txt_delete_failed (JStr txt_check_network) Destructive]\<rparr>)
       \<and> (\<not> truthy (own result k_message) \<longrightarrow>
            deleteFile_resume X (Response False (Some result)) s =
              Inr (s\<lparr>isDeleting := None,
                      effects := effects s @
                        [Console Err log_delete_failed (Val (Some (JStr txt_unknown_error))),
                         Toast txt_delete_failed (JStr txt_unknown_error) Destructive]\<rparr>))
       \<and> (truthy (own result k_message) \<longrightarrow>
            (\<exists>m. own result k_message = Some m
               \<and> deleteFile_resume X (Response False (Some result)) s =
                   Inr (s\<lparr>isDeleting := None,
                           effects := effects s @
                             [Console Err log_delete_failed (Val (Some m)),
                              Toast txt_delete_failed m Destructive]\<rparr>)
               \<and> deleteFile_resume X (Response True (Some result)) s =
                   Inr (s\<lparr>isDeleting := None,
                           files := filter (\<lambda>file. own file k_id \<noteq> Some (JStr X)) (files s),
                           effects := effects s @ [Toast txt_delete_ok m Default]\<rparr>)))
       \<and> (\<not> truthy (own result k_message)
            \<and> \<not> truthy (opt_prop (own result k_data) k_message) \<longrightarrow>
            deleteFile_resume X (Response True (Some result)) s =
              Inr (s\<lparr>isDeleting := None,
                      files := filter (\<lambda>file. own file k_id \<noteq> Some (JStr X)) (files s),
                      effects := effects s @
                        [Toast txt_delete_ok (JStr txt_file_deleted) Default]\<rparr>))"
proof -
  let ?m = "own result k_message" and ?d = "opt_prop (own result k_data) k_message"
  have falsy: "or_else v b = b" if "\<not> truthy v" for v b
    using that by (cases v) (simp_all add: or_else_def)
  have both: "or_else (or_js v w) b = b" if "\<not> truthy v" and "\<not> truthy w" for v w b
    using that by (simp add: or_js_def falsy)
  have ok: "deleteFile_resume X (Response True (Some result)) s =
           Inr (s\<lparr>isDeleting := None,
                   files := filter (\<lambda>file. own file k_id \<noteq> Some (JStr X)) (files s),
                   effects := effects s @
                     [Toast txt_delete_ok (or_else (or_js ?m ?d) (JStr txt_file_deleted))
                        Default]\<rparr>)"
    using assms(1,2) by (simp add: deleteFile_resume_success)
  have failed: "deleteFile_resume X (Response False (Some result)) s =
           Inr (s\<lparr>isDeleting := None,
                   effects := effects s @
                     [Console Err log_delete_failed
                        (Val (Some (or_else ?m (JStr txt_unknown_error)))),
                      Toast txt_delete_failed
                        (or_else ?m (JStr txt_unknown_error)) Destructive]\<rparr>)"
    using assms(2) by (simp add: deleteFile_resume_reported_failure)
  have unread: "deleteFile_resume X r s =
           Inr (s\<lparr>isDeleting := None,
                   effects := effects s @
                     [Console Err log_delete_error (Exn (thrown r)),
                      Toast txt_delete_failed (JStr txt_check_network) Destructive]\<rparr>)"
    using assms(3) by (rule deleteFile_resume_thrown)
  have no_message: "deleteFile_resume X (Response False (Some result)) s =
              Inr (s\<lparr>isDeleting := None,
                      effects := effects s @
                        [Console Err log_delete_failed (Val (Some (JStr txt_unknown_error))),
                         Toast txt_delete_failed (JStr txt_unknown_error) Destructive]\<rparr>)"
    if "\<not> truthy ?m"
    using failed that by (simp add: falsy)
  have message: "\<exists>m. ?m = Some m
               \<and> deleteFile_resume X (Response False (Some result)) s =
                   Inr (s\<lparr>isDeleting := None,
                           effects := effects s @
                             [Console Err log_delete_failed (Val (Some m)),
                              Toast txt_delete_failed m Destructive]\<rparr>)
               \<and> deleteFile_resume X (Response True (Some result)) s =
                   Inr (s\<lparr>isDeleting := None,
                           files := filter (\<lambda>file. own file k_id \<noteq> Some (JStr X)) (files s),
                           effects := effects s @ [Toast txt_delete_ok m Default]\<rparr>)"
    if "truthy ?m"
  proof -
    from that obtain m where m: "?m = Some m"
      by (cases ?m) simp_all
    with that have "or_else ?m (JStr txt_unknown_error) = m"
      and "or_else (or_js ?m ?d) (JStr txt_file_deleted) = m"
      by (simp_all add: or_else_def or_js_def)
    with m ok failed show ?thesis
      by simp
  qed
  have no_message_ok: "deleteFile_resume X (Response True (Some result)) s =
              Inr (s\<lparr>isDeleting := None,
                      files := filter (\<lambda>file. own file k_id \<noteq> Some (JStr X)) (files s),
                      effects := effects s @
                        [Toast txt_delete_ok (JStr txt_file_deleted) Default]\<rparr>)"
    if "\<not> truthy ?m \<and> \<not> truthy ?d"
    using ok that by (simp add: both)
  from ok failed unread no_message message no_message_ok show ?thesis
    by blast
qed

theorem deleteFile_removes_exactly_witness:
  "JNull \<notin> set (files (init\<lparr>files := [file_a, file_b]\<rparr>))
   \<and> JObj [(k_message, JStr (ascii ''gone''))] \<noteq> JNull
   \<and> deleteFile_resume (ascii ''a'') (Response True (Some (JObj [(k_message, JStr (ascii ''gone''))])))
        (init\<lparr>files := [file_a, file_b]\<rparr>)
       = Inr (init\<lparr>files := [file_b],
                   effects := [Toast txt_delete_ok (JStr (ascii ''gone'')) Default]\<rparr>)
   \<and> deleteFile_resume (ascii ''a'') (Response False (Some (JObj [(k_message, JStr (ascii ''gone''))])))
        (init\<lparr>files := [file_a, file_b]\<rparr>)
       = Inr (init\<lparr>files := [file_a, file_b],
                   effects := [Console Err log_delete_failed (Val (Some (JStr (ascii ''gone'')))),
                               Toast txt_delete_failed (JStr (ascii ''gone'')) Destructive]\<rparr>)
   \<and> deleteFile_resume (ascii ''a'') Rejected (init\<lparr>files := [file_a, file_b]\<rparr>)
       = Inr (init\<lparr>files := [file_a, file_b],
                   effects := [Console Err log_delete_error (Exn FetchRejected),
                               Toast txt_delete_failed (JStr txt_check_network) Destructive]\<rparr>)
   \<and> JObj [] \<noteq> JNull \<and> \<not> truthy (own (JObj []) k_message)
   \<and> \<not> truthy (opt_prop (own (JObj []) k_data) k_message)
   \<and> deleteFile_resume (ascii ''a'') (Response False (Some (JObj [])))
        (init\<lparr>files := [file_a, file_b]\<rparr>)
       = Inr (init\<lparr>files := [file_a, file_b],
                   effects := [Console Err log_delete_failed (Val (Some (JStr txt_unknown_error))),
                               Toast txt_delete_failed (JStr txt_unknown_error) Destructive]\<rparr>)
   \<and> deleteFile_resume (ascii ''a'') (Response True (Some (JObj [])))
        (init\<lparr>files := [file_a, file_b]\<rparr>)
       = Inr (init\<lparr>files := [file_b],
                   effects := [Toast txt_delete_ok (JStr txt_file_deleted) Default]\<rparr>)
   \<and> JObj [(k_message, JStr [])] \<noteq> JNull \<and> \<not> truthy (own (JObj [(k_message, JStr [])]) k_message)
   \<and> deleteFile_resume (ascii ''a'') (Response False (Some (JObj [(k_message, JStr [])])))
        (init\<lparr>files := [file_a, file_b]\<rparr>)
       = Inr (init\<lparr>files := [file_a, file_b],
                   effects := [Console Err log_delete_failed (Val (Some (JStr txt_unknown_error))),
                               Toast txt_delete_failed (JStr txt_unknown_error) Destructive]\<rparr>)"
proof -
  have a: "JNull \<notin> set (files (init\<lparr>files := [file_a, file_b]\<rparr>))"
    by (simp add: file_a_def file_b_def)
  have b: "JObj [(k_message, JStr (ascii ''gone''))] \<noteq> JNull"
    and b': "JObj [] \<noteq> JNull" and b'': "JObj [(k_message, JStr [])] \<noteq> JNull"
    by simp_all
  have c: "Rejected = Rejected \<or> Rejected = Response True None
           \<or> Rejected = Response True (Some JNull)"
    by simp
  have t: "truthy (own (JObj [(k_message, JStr (ascii ''gone''))]) k_message)"
    and n: "\<not> truthy (own (JObj []) k_message)"
    and n': "\<not> truthy (opt_prop (own (JObj []) k_data) k_message)"
    and e: "\<not> truthy (own (JObj [(k_message, JStr [])]) k_message)"
    by (simp_all add: opt_prop_def)
  have fs: "filter (\<lambda>file. own file k_id \<noteq> Some (JStr (ascii ''a'')))
              (files (init\<lparr>files := [file_a, file_b]\<rparr>)) = [file_b]"
    by (simp add: file_a_def file_b_def)
  note with_message = deleteFile_removes_exactly [OF a b c, where X = "ascii ''a''"]
  note without_message = deleteFile_removes_exactly [OF a b' c, where X = "ascii ''a''"]
  note empty_message = deleteFile_removes_exactly [OF a b'' c, where X = "ascii ''a''"]
  have 1: "deleteFile_resume (ascii ''a'')
        (Response True (Some (JObj [(k_message, JStr (ascii ''gone''))])))
        (init\<lparr>files := [file_a, file_b]\<rparr>)
       = Inr (init\<lparr>files := [file_b],
                   effects := [Toast txt_delete_ok (JStr (ascii ''gone'')) Default]\<rparr>)"
    and 2: "deleteFile_resume (ascii ''a'')
        (Response False (Some (JObj [(k_message, JStr (ascii ''gone''))])))
        (init\<lparr>files := [file_a, file_b]\<rparr>)
       = Inr (init\<lparr>files := [file_a, file_b],
                   effects := [Console Err log_delete_failed (Val (Some (JStr (ascii ''gone'')))),
                               Toast txt_delete_failed (JStr (ascii ''gone'')) Destructive]\<rparr>)"
  proof -
    from with_message t obtain m
      where m: "own (JObj [(k_message, JStr (ascii ''gone''))]) k_message = Some m"
        and f: "deleteFile_resume (ascii ''a'')
                  (Response False (Some (JObj [(k_message, JStr (ascii ''gone''))])))
                  (init\<lparr>files := [file_a, file_b]\<rparr>)
          = Inr (init\<lparr>files := [file_a, file_b]\<rparr>\<lparr>isDeleting := None,
                  effects := effects (init\<lparr>files := [file_a, file_b]\<rparr>) @
                    [Console Err log_delete_failed (Val (Some m)),
                     Toast txt_delete_failed m Destructive]\<rparr>)"
        and s: "deleteFile_resume (ascii ''a'')
                  (Response True (Some (JObj [(k_message, JStr (ascii ''gone''))])))
                  (init\<lparr>files := [file_a, file_b]\<rparr>)
          = Inr (init\<lparr>files := [file_a, file_b]\<rparr>\<lparr>isDeleting := None,
                  files := filter (\<lambda>file. own file k_id \<noteq> Some (JStr (ascii ''a'')))
                             (files (init\<lparr>files := [file_a, file_b]\<rparr>)),
                  effects := effects (init\<lparr>files := [file_a, file_b]\<rparr>) @
                    [Toast txt_delete_ok m Default]\<rparr>)"
      by blast
    from m have "m = JStr (ascii ''gone'')"
      by simp
    with f s show "deleteFile_resume (ascii ''a'')
        (Response True (Some (JObj [(k_message, JStr (ascii ''gone''))])))
        (init\<lparr>files := [file_a, file_b]\<rparr>)
       = Inr (init\<lparr>files := [file_b],
                   effects := [Toast txt_delete_ok (JStr (ascii ''gone'')) Default]\<rparr>)"
      and "deleteFile_resume (ascii ''a'')
        (Response False (Some (JObj [(k_message, JStr (ascii ''gone''))])))
        (init\<lparr>files := [file_a, file_b]\<rparr>)
       = Inr (init\<lparr>files := [file_a, file_b],
                   effects := [Console Err log_delete_failed (Val (Some (JStr (ascii ''gone'')))),
                               Toast txt_delete_failed (JStr (ascii ''gone'')) Destructive]\<rparr>)"
      by (simp_all add: init_def fs [simplified])
  qed
  have 3: "deleteFile_resume (ascii ''a'') Rejected (init\<lparr>files := [file_a, file_b]\<rparr>)
       = Inr (init\<lparr>files := [file_a, file_b],
                   effects := [Console Err log_delete_error (Exn FetchRejected),
                               Toast txt_delete_failed (JStr txt_check_network) Destructive]\<rparr>)"
  proof -
    from with_message have "deleteFile_resume (ascii ''a'') Rejected
        (init\<lparr>files := [file_a, file_b]\<rparr>)
       = Inr (init\<lparr>files := [file_a, file_b]\<rparr>\<lparr>isDeleting := None,
               effects := effects (init\<lparr>files := [file_a, file_b]\<rparr>) @
                 [Console Err log_delete_error (Exn (thrown Rejected)),
                  Toast txt_delete_failed (JStr txt_check_network) Destructive]\<rparr>)"
      by blast
    then show ?thesis by (simp add: init_def thrown_def)
  qed
  have 4: "deleteFile_resume (ascii ''a'') (Response False (Some (JObj [])))
        (init\<lparr>files := [file_a, file_b]\<rparr>)
       = Inr (init\<lparr>files := [file_a, file_b],
                   effects := [Console Err log_delete_failed (Val (Some (JStr txt_unknown_error))),
                               Toast txt_delete_failed (JStr txt_unknown_error) Destructive]\<rparr>)"
  proof -
    from without_message n have "deleteFile_resume (ascii ''a'') (Response False (Some (JObj [])))
        (init\<lparr>files := [file_a, file_b]\<rparr>)
       = Inr (init\<lparr>files := [file_a, file_b]\<rparr>\<lparr>isDeleting := None,
               effects := effects (init\<lparr>files := [file_a, file_b]\<rparr>) @
                 [Console Err log_delete_failed (Val (Some (JStr txt_unknown_error))),
                  Toast txt_delete_failed (JStr txt_unknown_error) Destructive]\<rparr>)"
      by blast
    then show ?thesis by (simp add: init_def)
  qed
  have 5: "deleteFile_resume (ascii ''a'') (Response True (Some (JObj [])))
        (init\<lparr>files := [file_a, file_b]\<rparr>)
       = Inr (init\<lparr>files := [file_b],
                   effects := [Toast txt_delete_ok (JStr txt_file_deleted) Default]\<rparr>)"
  proof -
    from without_message n n' have "deleteFile_resume (ascii ''a'') (Response True (Some (JObj [])))
        (init\<lparr>files := [file_a, file_b]\<rparr>)
       = Inr (init\<lparr>files := [file_a, file_b]\<rparr>\<lparr>isDeleting := None,
               files := filter (\<lambda>file. own file k_id \<noteq> Some (JStr (ascii ''a'')))
                          (files (init\<lparr>files := [file_a, file_b]\<rparr>)),
               effects := effects (init\<lparr>files := [file_a, file_b]\<rparr>) @
                 [Toast txt_delete_ok (JStr txt_file_deleted) Default]\<rparr>)"
      by blast
    then show ?thesis by (simp add: init_def fs [simplified])
  qed
  have 6: "deleteFile_resume (ascii ''a'') (Response False (Some (JObj [(k_message, JStr [])])))
        (init\<lparr>files := [file_a, file_b]\<rparr>)
       = Inr (init\<lparr>files := [file_a, file_b],
                   effects := [Console Err log_delete_failed (Val (Some (JStr txt_unknown_error))),
                               Toast txt_delete_failed (JStr txt_unknown_error) Destructive]\<rparr>)"
  proof -
    from empty_message e have "deleteFile_resume (ascii ''a'')
        (Response False (Some (JObj [(k_message, JStr [])])))
        (init\<lparr>files := [file_a, file_b]\<rparr>)
       = Inr (init\<lparr>files := [file_a, file_b]\<rparr>\<lparr>isDeleting := None,
               effects := effects (init\<lparr>files := [file_a, file_b]\<rparr>) @
                 [Console Err log_delete_failed (Val (Some (JStr txt_unknown_error))),
                  Toast txt_delete_failed (JStr txt_unknown_error) Destructive]\<rparr>)"
      by blast
    then show ?thesis by (simp add: init_def)
  qed
  show ?thesis
    using a b b' b'' n n' e 1 2 3 4 5 6 by blast
qed

text \<open>
  C4.  Without a stored token \<open>processFiles\<close> ends before it awaits anything: it issues no
  request and leaves the store as it is.  With a project id, the \<^verbatim>\<open>Error\<close> "unauthorized"
  is thrown and caught, logged, and reported by the failure toast, and nothing else
  happens.  The "uploading" flag is down afterwards unless the project id is missing too,
  in which case it is not touched; so the flag is as before whenever it was down, which is
  whenever no ingestion is in flight.
\<close>

theorem no_credential_no_upload:
  assumes "\<not> present (token e)"
  shows "\<not> fst (processFiles_start e fileList s)
       \<and> requests (snd (processFiles_start e fileList s)) = requests s
       \<and> files (snd (processFiles_start e fileList s)) = files s
       \<and> isUploading (snd (processFiles_start e fileList s))
           = (isUploading s \<and> \<not> present (projectId e))
       \<and> (\<not> isUploading s \<longrightarrow>
            isUploading (snd (processFiles_start e fileList s)) = isUploading s)
       \<and> (present (projectId e) \<longrightarrow>
            effects (snd (processFiles_start e fileList s))
              = effects s @ [Console Err log_upload_error (Exn (Error txt_unauthorized)),
                             Toast txt_upload_failed (JStr txt_check_network) Destructive])
       \<and> (present (projectId e) \<and> \<not> isUploading s \<longrightarrow>
            processFiles_start e fileList s
              = (False, s\<lparr>effects := effects s @
                          [Console Err log_upload_error (Exn (Error txt_unauthorized)),
                           Toast txt_upload_failed (JStr txt_check_network) Destructive]\<rparr>))"
  using assms
  by (simp add: processFiles_start_def processFiles_catch_def emit_def
      requests_def requests_in_append)

theorem no_credential_no_upload_witness:
  "\<not> present (token (sample_env\<lparr>token := None\<rparr>))
   \<and> present (projectId (sample_env\<lparr>token := None\<rparr>))
   \<and> \<not> isUploading init
   \<and> processFiles_start (sample_env\<lparr>token := None\<rparr>) [Blob (ascii ''r.pdf'') 2048] init
       = (False, init\<lparr>effects :=
                   [Console Err log_upload_error (Exn (Error txt_unauthorized)),
                    Toast txt_upload_failed (JStr txt_check_network) Destructive]\<rparr>)
   \<and> requests (snd (processFiles_start (sample_env\<lparr>token := None\<rparr>)
                       [Blob (ascii ''r.pdf'') 2048] init)) = requests init
   \<and> isUploading (snd (processFiles_start (sample_env\<lparr>token := None\<rparr>)
                       [Blob (ascii ''r.pdf'') 2048] init)) = isUploading init"
proof -
  have t: "\<not> present (token (sample_env\<lparr>token := None\<rparr>))"
    by (simp add: present_def)
  have p: "present (projectId (sample_env\<lparr>token := None\<rparr>))"
    by (simp add: sample_env_def present_def)
  have u: "\<not> isUploading init"
    by (simp add: init_def)
  note w = no_credential_no_upload [OF t, where fileList = "[Blob (ascii ''r.pdf'') 2048]"
      and s = init]
  have "processFiles_start (sample_env\<lparr>token := None\<rparr>) [Blob (ascii ''r.pdf'') 2048] init
       = (False, init\<lparr>effects :=
                   [Console Err log_upload_error (Exn (Error txt_unauthorized)),
                    Toast txt_upload_failed (JStr txt_check_network) Destructive]\<rparr>)"
    using w p u by (simp add: init_def)
  then show ?thesis
    using t p u w by blast
qed

text \<open>
  C5 (as amended).  There is one "deleting" marker for the whole list, not one for each id.
  Starting a delete of \<open>X\<close> with a stored token sets the marker to \<open>X\<close>, whatever it was;
  starting it without a token leaves the marker cleared.  While the marker names \<open>X\<close> the
  delete button of \<open>X\<close> is disabled.  Every outcome of a delete clears the marker,
  whichever id it names.  So deletes of two ids \<open>a\<close> and \<open>b\<close> can be in flight together,
  the marker then names \<open>b\<close> alone, and the completion of the delete of \<open>a\<close> clears it.
\<close>

theorem deleting_marker_is_single:
  assumes "JNull \<notin> set (files s)" and "present tok"
  shows "isDeleting (snd (deleteFile_start tok X s)) = Some X
       \<and> isDeleting (snd (deleteFile_start None X s)) = None
       \<and> react (ClickDelete tok' X) (snd (deleteFile_start tok X s))
           = Inr (snd (deleteFile_start tok X s))
       \<and> (\<exists>s'. deleteFile_resume X r s = Inr s' \<and> isDeleting s' = None)
       \<and> isDeleting (snd (deleteFile_start tok b (snd (deleteFile_start tok a s)))) = Some b
       \<and> (\<exists>s'. deleteFile_resume a r (snd (deleteFile_start tok b (snd (deleteFile_start tok a s))))
                  = Inr s' \<and> isDeleting s' = None)"
proof -
  have "\<exists>s'. deleteFile_resume X r s = Inr s' \<and> isDeleting s' = None" if "JNull \<notin> set (files s)"
    for X r s
    using deleteFile_resume_total [OF that, of X r] deleteFile_resume_frame [of X r s] by blast
  moreover have "files (snd (deleteFile_start tok b (snd (deleteFile_start tok a s)))) = files s"
    using assms(2) by (simp add: deleteFile_start_issued)
  ultimately show ?thesis
    using assms
    by (simp add: deleteFile_start_issued deleteFile_start_unauthorized present_def
        delete_enabled_def)
qed

theorem deleting_marker_is_single_witness:
  "JNull \<notin> set (files (init\<lparr>files := [file_a, file_b]\<rparr>)) \<and> present sample_token
   \<and> isDeleting (snd (deleteFile_start sample_token (ascii ''a'') (init\<lparr>files := [file_a, file_b]\<rparr>)))
       = Some (ascii ''a'')
   \<and> (\<exists>s'. deleteFile_resume (ascii ''a'') acknowledged (init\<lparr>files := [file_a, file_b]\<rparr>) = Inr s'
             \<and> isDeleting s' = None)"
proof -
  have a: "JNull \<notin> set (files (init\<lparr>files := [file_a, file_b]\<rparr>))"
    by (simp add: file_a_def file_b_def)
  have b: "present sample_token"
    by (simp add: sample_token_def present_def)
  show ?thesis
    using a b deleting_marker_is_single [OF a b, where X = "ascii ''a''" and r = acknowledged]
    by blast
qed

text \<open>
  C5 as stated fails.  With the files \<open>a\<close> and \<open>b\<close> listed, the user clicks delete on \<open>a\<close>
  and then on \<open>b\<close>: both requests are in flight and the marker names \<open>b\<close>.  When the
  delete of \<open>a\<close> is answered, the marker is cleared although the delete of \<open>b\<close> has not been
  answered.
\<close>

theorem deleting_marker_counterexample:
  "map_sum id isDeleting
     (run [Mounted sample_env, ListReplied (listing [file_a, file_b]),
           ClickDelete sample_token (ascii ''a''), ClickDelete sample_token (ascii ''b'')] init)
     = Inr (Some (ascii ''b''))
   \<and> map_sum id requests
     (run [Mounted sample_env, ListReplied (listing [file_a, file_b]),
           ClickDelete sample_token (ascii ''a''), ClickDelete sample_token (ascii ''b'')] init)
     = Inr [ListFiles (ascii ''t0k3n'') (ascii ''p1''), Delete (ascii ''t0k3n'') (ascii ''a''),
            Delete (ascii ''t0k3n'') (ascii ''b'')]
   \<and> map_sum id isDeleting
     (run [Mounted sample_env, ListReplied (listing [file_a, file_b]),
           ClickDelete sample_token (ascii ''a''), ClickDelete sample_token (ascii ''b''),
           DeleteReplied (ascii ''a'') acknowledged] init)
     = Inr None"
  by (simp add: init_def sample_env_def sample_token_def listing_def acknowledged_def
      file_a_def file_b_def mount_def fetchFiles_start_def fetchFiles_resume_def
      fetchFiles_body_def select_files_def get_prop_def key_defs present_def str_of_def
      delete_enabled_def file_id_def deleteFile_start_def deleteFile_resume_def
      deleteFile_body_def emit_def requests_def or_else_def or_js_def opt_prop_def)

text \<open>
  C6.  The "uploading" flag starts down.  Let an ingestion start while it is down.  If the
  upload request is issued, which happens exactly when project id and token are there, the
  flag is up, and it stays up through every further event that neither starts nor ends an
  ingestion; if the call ends at once (no project id, or no token), the flag is down.  The
  completion of \<open>processFiles\<close> lowers the flag on every reply, success or failure.
\<close>

theorem uploading_flag_brackets_ingestion:
  assumes "\<not> isUploading s"
    and "\<forall>ev \<in> set evs. \<not> ingestion_event ev"
    and "run evs (snd (processFiles_start e fileList s)) = Inr s1"
  shows "\<not> isUploading init
       \<and> fst (processFiles_start e fileList s) = (present (projectId e) \<and> present (token e))
       \<and> isUploading (snd (processFiles_start e fileList s)) = fst (processFiles_start e fileList s)
       \<and> isUploading s1 = fst (processFiles_start e fileList s)
       \<and> \<not> isUploading (snd (processFiles_resume e' fileList' r s1))"
proof -
  have "isUploading (snd (processFiles_start e fileList s)) = fst (processFiles_start e fileList s)"
    using assms(1) by (simp add: processFiles_start_def processFiles_catch_def emit_def Let_def)
  moreover have "isUploading s1 = isUploading (snd (processFiles_start e fileList s))"
    using assms(2,3) by (rule run_keeps_uploading)
  moreover have "fst (processFiles_start e fileList s) = (present (projectId e) \<and> present (token e))"
    by (simp add: processFiles_start_def Let_def)
  ultimately show ?thesis
    by (simp add: processFiles_resume_lowers_flag init_def)
qed

theorem uploading_flag_brackets_ingestion_witness:
  "\<not> isUploading init
   \<and> \<not> ingestion_event ClickStartDocument \<and> \<not> ingestion_event ClickBack
   \<and> run [ClickStartDocument, ClickBack]
         (snd (processFiles_start sample_env [Blob (ascii ''r.pdf'') 2048] init))
       = Inr (snd (processFiles_start sample_env [Blob (ascii ''r.pdf'') 2048] init))
   \<and> isUploading (snd (processFiles_start sample_env [Blob (ascii ''r.pdf'') 2048] init))
   \<and> \<not> isUploading (snd (processFiles_resume sample_env [Blob (ascii ''r.pdf'') 2048] Rejected
          (snd (processFiles_start sample_env [Blob (ascii ''r.pdf'') 2048] init))))"
proof -
  have a: "\<not> isUploading init"
    by (simp add: init_def)
  have b: "\<forall>ev \<in> set [ClickStartDocument, ClickBack]. \<not> ingestion_event ev"
    by simp
  have st: "step (snd (processFiles_start sample_env [Blob (ascii ''r.pdf'') 2048] init)) = Initial"
    using processFiles_start_frame [of sample_env "[Blob (ascii ''r.pdf'') 2048]" init]
    by (simp add: init_def)
  have c: "run [ClickStartDocument, ClickBack]
         (snd (processFiles_start sample_env [Blob (ascii ''r.pdf'') 2048] init))
       = Inr (snd (processFiles_start sample_env [Blob (ascii ''r.pdf'') 2048] init))"
    using st by simp
  have p: "present (projectId sample_env) \<and> present (token sample_env)"
    by (simp add: sample_env_def sample_token_def present_def)
  show ?thesis
    using a b c p
      uploading_flag_brackets_ingestion [OF a b c, where e' = sample_env
        and fileList' = "[Blob (ascii ''r.pdf'') 2048]" and r = Rejected]
    by simp
qed

text \<open>
  C7.  Without a project id \<open>processFiles\<close> only shows the toast that no project id was
  found: it issues no request and changes nothing else.  \<open>fetchFiles\<close> returns at once, and
  the effect run on mount only lowers \<open>isLoading\<close>: the store stays empty and nothing is
  reported.
\<close>

theorem no_project_no_request:
  assumes "\<not> present (projectId e)"
  shows "processFiles_start e fileList s
           = (False, s\<lparr>effects := effects s @
                          [Toast txt_upload_failed (JStr txt_no_project) Destructive]\<rparr>)
         \<and> requests (snd (processFiles_start e fileList s)) = requests s
         \<and> fetchFiles_start e s = (False, s)
         \<and> mount e s = (False, s\<lparr>isLoading := False\<rparr>)
         \<and> mount e init = (False, init\<lparr>isLoading := False\<rparr>)
         \<and> files (snd (mount e init)) = []
         \<and> effects (snd (mount e init)) = []"
  using assms
  by (simp add: processFiles_start_def fetchFiles_start_def mount_def emit_def init_def
      requests_def requests_in_append)

theorem no_project_no_request_witness:
  "\<not> present (projectId \<lparr>projectId = None, token = sample_token\<rparr>)
   \<and> processFiles_start \<lparr>projectId = None, token = sample_token\<rparr> [Blob (ascii ''r.pdf'') 2048] init
       = (False, init\<lparr>effects := [Toast txt_upload_failed (JStr txt_no_project) Destructive]\<rparr>)
   \<and> mount \<lparr>projectId = None, token = sample_token\<rparr> init = (False, init\<lparr>isLoading := False\<rparr>)"
proof -
  have h: "\<not> present (projectId \<lparr>projectId = None, token = sample_token\<rparr>)"
    by (simp add: present_def)
  show ?thesis
    using h no_project_no_request [OF h, of "[Blob (ascii ''r.pdf'') 2048]" init]
    by (simp add: init_def)
qed

text \<open>
  C8 (as amended).  \<open>fetchFiles\<close> stores an accepted array as it is, and the updater of
  \<open>deleteFile\<close> only drops records.  So the store holds records with pairwise different ids
  after every sequence of events, provided that each accepted list response does: the
  store is empty at first, and every event keeps the property when the accepted array of
  a list reply has it.
\<close>

theorem store_ids_unique_if_lists_are:
  assumes "\<forall>ev \<in> set evs. well_listed ev"
    and "JNull \<notin> set (files s)" and "ids_unique (files s)"
  shows "(\<exists>s'. run evs init = Inr s' \<and> ids_unique (files s') \<and> JNull \<notin> set (files s'))
       \<and> (\<exists>s'. run evs s = Inr s' \<and> ids_unique (files s') \<and> JNull \<notin> set (files s'))
       \<and> (select_files result = Inr (Some (JArr xs)) \<longrightarrow>
            ids_unique (files (fetchFiles_resume (Response True (Some result)) s)) = ids_unique xs)"
proof -
  have "JNull \<notin> set (files init)" and "ids_unique (files init)"
    by (simp_all add: init_def ids_unique_def)
  then have "\<exists>s'. run evs init = Inr s' \<and> JNull \<notin> set (files s') \<and> ids_unique (files s')"
    using assms(1) by (rule run_keeps_unique)
  moreover have "\<exists>s'. run evs s = Inr s' \<and> JNull \<notin> set (files s') \<and> ids_unique (files s')"
    using assms(2,3,1) by (rule run_keeps_unique)
  ultimately show ?thesis
    by (auto simp add: fetchFiles_resume_accepted)
qed

theorem store_ids_unique_if_lists_are_witness:
  "well_listed (Mounted sample_env) \<and> well_listed (ListReplied (listing [file_a, file_b]))
   \<and> well_listed (ClickDelete sample_token (ascii ''a''))
   \<and> well_listed (DeleteReplied (ascii ''a'') acknowledged)
   \<and> JNull \<notin> set (files init) \<and> ids_unique (files init)
   \<and> (\<exists>s'. run [Mounted sample_env, ListReplied (listing [file_a, file_b]),
                 ClickDelete sample_token (ascii ''a''),
                 DeleteReplied (ascii ''a'') acknowledged] init = Inr s'
            \<and> ids_unique (files s') \<and> JNull \<notin> set (files s'))"
proof -
  have a: "\<forall>ev \<in> set [Mounted sample_env, ListReplied (listing [file_a, file_b]),
                  ClickDelete sample_token (ascii ''a''),
                  DeleteReplied (ascii ''a'') acknowledged]. well_listed ev"
  proof -
    have "ids_unique [file_a, file_b]"
      by (simp add: ids_unique_def file_a_def file_b_def file_id_def get_prop_def)
    moreover have "JNull \<notin> set [file_a, file_b]"
      by (simp add: file_a_def file_b_def)
    ultimately show ?thesis
      by (simp add: listing_def select_files_data_envelope)
  qed
  have b: "JNull \<notin> set (files init)" and c: "ids_unique (files init)"
    by (simp_all add: init_def ids_unique_def)
  show ?thesis
    using a b c store_ids_unique_if_lists_are [OF a b c] by simp
qed

text \<open>
  C8 as stated fails: the accepted list response \<^verbatim>\<open>{data: {files: [{id: "a"}, {id: "a"}]}}\<close>
  puts two records with the id \<open>a\<close> into the store.
\<close>

theorem store_ids_unique_counterexample:
  "map_sum id files (run [Mounted sample_env, ListReplied (listing [file_a, file_a])] init)
     = Inr [file_a, file_a]
   \<and> \<not> ids_unique [file_a, file_a]"
  by (simp add: init_def sample_env_def sample_token_def listing_def mount_def
      fetchFiles_start_def fetchFiles_resume_def fetchFiles_body_def
      select_files_data_envelope present_def emit_def ids_unique_def)

text \<open>
  C9 (as amended).  The component starts in the chooser (\<open>step = Initial\<close>).  There the
  start button leads to the authoring form (\<open>step = Document\<close>) and the conversation
  button hands the empty text to \<^verbatim>\<open>onStartCreatingDocument\<close>.  In the form the back button
  leads to the chooser; submitting does nothing while the trimmed description is empty,
  and otherwise hands the description exactly as typed, with its leading and trailing
  white space, to \<^verbatim>\<open>onStartCreatingDocument\<close> and leaves \<open>step\<close> as it is: the trimmed text
  decides whether the form can be submitted, it is not what is passed on.  No other event
  changes \<open>step\<close>, and no other event calls \<^verbatim>\<open>onStartCreatingDocument\<close>.
\<close>

theorem view_mode_machine:
  "step init = Initial
   \<and> (step s = Initial \<longrightarrow> react ClickStartDocument s = Inr (s\<lparr>step := Document\<rparr>))
   \<and> (step s = Document \<longrightarrow> react ClickBack s = Inr (s\<lparr>step := Initial\<rparr>))
   \<and> (step s = Document \<and> trim (description s) = [] \<longrightarrow> react SubmitForm s = Inr s)
   \<and> (step s = Document \<and> trim (description s) \<noteq> [] \<longrightarrow>
        react SubmitForm s
          = Inr (s\<lparr>effects := effects s @ [StartCreatingDocument (description s)]\<rparr>))
   \<and> (step s = Initial \<longrightarrow>
        react ClickConversation s = Inr (s\<lparr>effects := effects s @ [StartCreatingDocument []]\<rparr>))
   \<and> (react ev s = Inr s' \<and> step s' \<noteq> step s \<longrightarrow>
        (ev = ClickStartDocument \<and> step s = Initial \<and> step s' = Document)
        \<or> (ev = ClickBack \<and> step s = Document \<and> step s' = Initial))
   \<and> (react ev s = Inr s' \<and> seeds s' \<noteq> seeds s \<longrightarrow>
        (ev = SubmitForm \<and> step s = Document \<and> trim (description s) \<noteq> []
           \<and> seeds s' = seeds s @ [description s])
        \<or> (ev = ClickConversation \<and> step s = Initial \<and> seeds s' = seeds s @ [[]]))
   \<and> (step s = Document \<and> trim (description s) \<noteq> [] \<longrightarrow>
        map_sum id seeds (react SubmitForm s) = Inr (seeds s @ [description s]))
   \<and> (step s = Document \<and> trim (description s) \<noteq> []
        \<and> trim (description s) \<noteq> description s \<longrightarrow>
        map_sum id seeds (react SubmitForm s) \<noteq> Inr (seeds s @ [trim (description s)]))"
proof -
  have submitted: "map_sum id seeds (react SubmitForm s) = Inr (seeds s @ [description s])"
    if "step s = Document \<and> trim (description s) \<noteq> []"
    using that by (simp add: handleSubmit_def emit_def seeds_def seeds_in_append)
  have untrimmed: "map_sum id seeds (react SubmitForm s) \<noteq> Inr (seeds s @ [trim (description s)])"
    if "step s = Document \<and> trim (description s) \<noteq> []
        \<and> trim (description s) \<noteq> description s"
    using that submitted by auto
  show ?thesis
    using react_step_change [of ev s s'] react_seeds_change [of ev s s'] submitted untrimmed
    by (simp add: init_def handleSubmit_def emit_def)
qed

theorem view_mode_machine_witness:
  "step init = Initial
   \<and> react ClickStartDocument init = Inr authoring
   \<and> step authoring = Document \<and> trim (description authoring) = []
   \<and> react SubmitForm authoring = Inr authoring
   \<and> react ClickBack authoring = Inr init
   \<and> step described = Document \<and> trim (description described) \<noteq> []
   \<and> react SubmitForm described
       = Inr (described\<lparr>effects := [StartCreatingDocument (ascii ''build me a shop'')]\<rparr>)
   \<and> react ClickConversation init = Inr (init\<lparr>effects := [StartCreatingDocument []]\<rparr>)
   \<and> step authoring \<noteq> step init
   \<and> seeds (described\<lparr>effects := [StartCreatingDocument (ascii ''build me a shop'')]\<rparr>)
       \<noteq> seeds described
   \<and> seeds (described\<lparr>effects := [StartCreatingDocument (ascii ''build me a shop'')]\<rparr>)
       = seeds described @ [description described]
   \<and> step blank = Document \<and> description blank \<noteq> [] \<and> trim (description blank) = []
   \<and> react SubmitForm blank = Inr blank
   \<and> step padded = Document \<and> description padded = ascii '' hi ''
   \<and> trim (description padded) = ascii ''hi''
   \<and> react SubmitForm padded = Inr (padded\<lparr>effects := [StartCreatingDocument (ascii '' hi '')]\<rparr>)
   \<and> map_sum id seeds (react SubmitForm padded) = Inr [ascii '' hi '']
   \<and> map_sum id seeds (react SubmitForm padded) \<noteq> Inr [ascii ''hi'']"
proof -
  have i: "step init = Initial"
    by (simp add: init_def)
  have a: "step authoring = Document" and a': "trim (description authoring) = []"
    by (simp_all add: authoring_def init_def trim_def)
  have d: "step described = Document"
    by (simp add: described_def)
  have d': "trim (description described) \<noteq> []"
    by (simp add: described_def trim_def is_space_def ascii_def)
  have b: "step blank = Document" and b': "description blank \<noteq> []"
    and b'': "trim (description blank) = []"
    by (simp_all add: blank_def trim_def is_space_def)
  have p: "step padded = Document" and p': "description padded = ascii '' hi ''"
    by (simp_all add: padded_def)
  have p'': "trim (description padded) = ascii ''hi''"
    by (simp add: padded_def trim_def is_space_def ascii_def)
  have p3: "trim (description padded) \<noteq> []"
    and p4: "trim (description padded) \<noteq> description padded"
    unfolding p'' by (simp_all add: p')
  have sp: "seeds padded = []" and ep: "effects padded = []"
    by (simp_all add: seeds_def padded_def init_def)
  note at_init = view_mode_machine [where s = init and ev = ClickStartDocument and s' = authoring]
  note at_authoring = view_mode_machine [where s = authoring]
  note at_described = view_mode_machine [where s = described and ev = SubmitForm
      and s' = "described\<lparr>effects := [StartCreatingDocument (ascii ''build me a shop'')]\<rparr>"]
  note at_blank = view_mode_machine [where s = blank]
  note at_padded = view_mode_machine [where s = padded]
  have 1: "react ClickStartDocument init = Inr authoring"
    using at_init i by (simp add: authoring_def)
  have 2: "react SubmitForm authoring = Inr authoring"
    using at_authoring a a' by blast
  have 3: "react ClickBack authoring = Inr init"
    using at_authoring a by (simp add: authoring_def init_def)
  have 4: "react SubmitForm described
       = Inr (described\<lparr>effects := [StartCreatingDocument (ascii ''build me a shop'')]\<rparr>)"
    using at_described d d' by (simp add: described_def init_def)
  have 5: "react ClickConversation init = Inr (init\<lparr>effects := [StartCreatingDocument []]\<rparr>)"
    using at_init i by (simp add: init_def)
  have 6: "step authoring \<noteq> step init"
    using a i by simp
  have 7: "seeds (described\<lparr>effects := [StartCreatingDocument (ascii ''build me a shop'')]\<rparr>)
       \<noteq> seeds described"
    by (simp add: seeds_def described_def init_def)
  have 8: "seeds (described\<lparr>effects := [StartCreatingDocument (ascii ''build me a shop'')]\<rparr>)
       = seeds described @ [description described]"
    using at_described 4 7 by blast
  have 9: "react SubmitForm blank = Inr blank"
    using at_blank b b'' by blast
  have 10: "react SubmitForm padded
      = Inr (padded\<lparr>effects := [StartCreatingDocument (ascii '' hi '')]\<rparr>)"
  proof -
    from at_padded p p3 have "react SubmitForm padded
      = Inr (padded\<lparr>effects := effects padded @ [StartCreatingDocument (description padded)]\<rparr>)"
      by blast
    then show ?thesis by (simp add: ep p')
  qed
  have 11: "map_sum id seeds (react SubmitForm padded) = Inr [ascii '' hi '']"
  proof -
    from at_padded p p3 have "map_sum id seeds (react SubmitForm padded)
        = Inr (seeds padded @ [description padded])"
      by blast
    then show ?thesis by (simp add: sp p')
  qed
  have 12: "map_sum id seeds (react SubmitForm padded) \<noteq> Inr [ascii ''hi'']"
  proof -
    from at_padded p p3 p4 have "map_sum id seeds (react SubmitForm padded)
        \<noteq> Inr (seeds padded @ [trim (description padded)])"
      by blast
    then show ?thesis by (simp add: sp p'')
  qed
  show ?thesis
    using i a a' d d' b b' b'' p p' p'' 1 2 3 4 5 6 7 8 9 10 11 12 by blast
qed

text \<open>
  C9 as stated fails where it says that the trimmed text is passed on.  The user opens the
  form, types \<^verbatim>\<open>" hi "\<close> and submits: the trimmed text \<^verbatim>\<open>"hi"\<close> is not empty, so the form
  is submitted, and \<^verbatim>\<open>onStartCreatingDocument\<close> receives \<^verbatim>\<open>" hi "\<close>, not \<^verbatim>\<open>"hi"\<close>.
\<close>

theorem submit_passes_untrimmed_counterexample:
  "trim (ascii '' hi '') = ascii ''hi''
   \<and> map_sum id seeds
        (run [ClickStartDocument, TypeDescription (ascii '' hi ''), SubmitForm] init)
       = Inr [ascii '' hi '']
   \<and> map_sum id seeds
        (run [ClickStartDocument, TypeDescription (ascii '' hi ''), SubmitForm] init)
       \<noteq> Inr [trim (ascii '' hi '')]"
proof -
  have t: "trim (ascii '' hi '') = ascii ''hi''"
    by (simp add: trim_def is_space_def ascii_def)
  have "map_sum id seeds
        (run [ClickStartDocument, TypeDescription (ascii '' hi ''), SubmitForm] init)
       = Inr [ascii '' hi '']"
    by (simp add: init_def t handleSubmit_def emit_def seeds_def)
  then show ?thesis
    by (simp add: t)
qed

text \<open>
  C10.  A list refresh that fails keeps the store: when \<^verbatim>\<open>fetch\<close> rejects, when the body is
  not JSON, when the response is not \<^verbatim>\<open>ok\<close>, and when line 83 does not select an array from
  the body of an \<^verbatim>\<open>ok\<close> response (which includes every body on which it throws), that is,
  when the body has none of the shapes of \<open>envelope_files\<close>.  The start of \<open>fetchFiles\<close>
  does not touch the store either.
\<close>

theorem fetchFiles_failure_keeps_store:
  "files (fetchFiles_resume Rejected s) = files s
   \<and> files (fetchFiles_resume (Response ok None) s) = files s
   \<and> files (fetchFiles_resume (Response False body) s) = files s
   \<and> ((\<forall>xs. select_files result \<noteq> Inr (Some (JArr xs))) \<longrightarrow>
        files (fetchFiles_resume (Response True (Some result)) s) = files s)
   \<and> (envelope_files result = None \<longrightarrow>
        files (fetchFiles_resume (Response True (Some result)) s) = files s)
   \<and> files (snd (fetchFiles_start e s)) = files s"
  using fetchFiles_resume_other(1) [of result s] fetchFiles_resume_envelope [of result s]
  by (auto simp add: fetchFiles_resume_def fetchFiles_body_def fetchFiles_catch_def
      files_fetchFiles_start emit_def split: sum.splits option.splits)

theorem fetchFiles_failure_keeps_store_witness:
  "(\<forall>xs. select_files (JObj [(k_files, JStr (ascii ''none''))]) \<noteq> Inr (Some (JArr xs)))
   \<and> files (fetchFiles_resume (Response True (Some (JObj [(k_files, JStr (ascii ''none''))])))
        (init\<lparr>files := [file_a, file_b]\<rparr>)) = [file_a, file_b]
   \<and> files (fetchFiles_resume Rejected (init\<lparr>files := [file_a, file_b]\<rparr>)) = [file_a, file_b]
   \<and> files (fetchFiles_resume (Response False (Some (JObj [])))
        (init\<lparr>files := [file_a, file_b]\<rparr>)) = [file_a, file_b]"
proof -
  have h: "\<forall>xs. select_files (JObj [(k_files, JStr (ascii ''none''))]) \<noteq> Inr (Some (JArr xs))"
    by (simp add: select_files_def get_prop_def key_defs)
  from h show ?thesis
    using fetchFiles_failure_keeps_store
      [of "init\<lparr>files := [file_a, file_b]\<rparr>" _ "Some (JObj [])" "JObj [(k_files, JStr (ascii ''none''))]"]
    by simp
qed


end
